theory Spec2Isabelle
  imports Complex_Main "HOL-Library.AList"
begin

section \<open>Values, errors and solver statuses\<close>

text \<open>
  Entity values are scalars, names of other entities (strings) or time series.
  Python floats are idealised as real numbers; a division by zero, which numpy answers
  with \<open>inf\<close> or \<open>nan\<close> and a warning instead of an exception, is the value \<open>NonFinite\<close>.
\<close>

datatype py_value = Num real | Str string | Series "real list" | NonFinite

text \<open>The Python exceptions of the modelled code, raised ones as values.\<close>

datatype error =
    AttributeError string
  | IndexError
  | TypeError
  | ValueError
  | RuntimeError string
  | UnknownEntity string

text \<open>The solver statuses of \<open>GRB_OPT_STATUS\<close> in \<open>core/mappings.py\<close>, keys 1 to 15.\<close>

datatype status =
    LOADED | OPTIMAL | INFEASIBLE | INF_OR_UNBD | UNBOUNDED | CUTOFF | ITERATION_LIMIT
  | NODE_LIMIT | TIME_LIMIT | SOLUTION_LIMIT | INTERRUPTED | NUMERIC | SUBOPTIMAL
  | INPROGRESS | USER_OBJ_LIMIT

section \<open>Scenarios\<close>

text \<open>
  Modelled from the spec: a variable of the store \<open>vars\<close>, whose class is not among the
  sources. A variable is an entity, so a named value, that carries in addition its
  metadata, in the code the dict \<open>vars._meta[name]\<close> with the keys \<open>lb\<close> and \<open>ub\<close> among
  others.
\<close>

record var_entity =
  var_value :: py_value
  var_meta :: "string \<rightharpoonup> py_value"

text \<open>
  A scenario with the attributes \<open>case_study.py\<close> reads and writes: \<open>id\<close>, \<open>name\<close>, \<open>doc\<close>,
  the parameter store \<open>params\<close>, the variable store \<open>vars\<close> with its metadata \<open>vars._meta\<close> and
  the result store \<open>res\<close>, an attribute that exists only on a solved scenario
  (\<open>hasattr(sc, "res")\<close>), here \<open>None\<close> when it is absent.
  Scenarios are values: the registry of a case study holds each scenario object under
  one id, and a change of the object is written back under that id.
\<close>

record scenario =
  scen_id :: string
  scen_name :: string
  scen_doc :: string
  params :: "string \<rightharpoonup> py_value"
  vars :: "string \<rightharpoonup> var_entity"
  res :: "(string \<rightharpoonup> real) option"
  solve_status :: "status option"


text \<open>
  Modelled from the spec: the constructor \<open>Scenario(id, name, doc, ...)\<close> of
  \<open>core/scenario.py\<close>, which is not among the sources. A scenario created from scratch
  has empty stores, no results and no solve status.
\<close>

definition Scenario :: "string \<Rightarrow> string \<Rightarrow> string \<Rightarrow> scenario" where
  "Scenario i n d =
     \<lparr>scen_id = i, scen_name = n, scen_doc = d, params = Map.empty, vars = Map.empty,
      res = None, solve_status = None\<rparr>"

text \<open>
  Modelled from the spec: \<open>Scenario._special_copy\<close>, not among the sources. A derivation
  duplicates the parameters and the variables with their metadata by value and resets the results
  and the solve status to unsolved.
\<close>

definition special_copy :: "scenario \<Rightarrow> scenario" where
  "special_copy sc = sc\<lparr>res := None, solve_status := None\<rparr>"

text \<open>
  Modelled from the spec: \<open>Scenario.update_params(**{name: value})\<close>, not among the
  sources; the store's \<open>set(name, value)\<close> overwrites or creates the parameter.
\<close>

definition update_params :: "scenario \<Rightarrow> string \<Rightarrow> py_value \<Rightarrow> scenario" where
  "update_params sc ent v = sc\<lparr>params := (params sc)(ent \<mapsto> v)\<rparr>"

text \<open>
  Modelled from the spec: \<open>Scenario.get_entity\<close>, not among the sources; a read-only
  lookup of an entity's current value that fails with \<open>UnknownEntity\<close> when the name is
  not found. An entity is a parameter, a variable or, on a solved scenario, a result,
  and the name is looked up in the three stores in this order.
\<close>

definition get_entity :: "scenario \<Rightarrow> string \<Rightarrow> error + py_value" where
  "get_entity sc ent =
     (case params sc ent of
        Some v \<Rightarrow> Inr v
      | None \<Rightarrow>
          (case vars sc ent of
             Some x \<Rightarrow> Inr (var_value x)
           | None \<Rightarrow>
               (case res sc of
                  None \<Rightarrow> Inl (UnknownEntity ent)
                | Some r \<Rightarrow>
                    (case r ent of None \<Rightarrow> Inl (UnknownEntity ent) | Some x \<Rightarrow> Inr (Num x)))))"


text \<open>
  Modelled from the spec: \<open>Scenario.optimize\<close>, not among the sources. The solver is an
  external collaborator, here the function \<open>solver\<close> from the scenario to a status and the
  result values. The status is recorded; the results are populated on success, that is
  on \<open>OPTIMAL\<close> and \<open>SUBOPTIMAL\<close>, and are left empty otherwise.
\<close>

definition optimize :: "(scenario \<Rightarrow> status \<times> (string \<rightharpoonup> real)) \<Rightarrow> scenario \<Rightarrow> scenario" where
  "optimize solver sc =
     (case solver sc of
        (st, vals) \<Rightarrow>
          sc\<lparr>res := (if st = OPTIMAL \<or> st = SUBOPTIMAL then Some vals else None),
             solve_status := Some st\<rparr>)"

section \<open>The case study and its registry\<close>

text \<open>
  The registry \<open>self.scens\<close> is an object whose attributes are the scenarios, named by
  their ids. \<open>case_study.py\<close> reads, writes and deletes them with Python's built-ins
  \<open>getattr\<close>, \<open>setattr\<close> and \<open>delattr\<close>, which act on the attribute dictionary of the
  object, a dictionary in insertion order: an assignment to a name that is present
  replaces the value in place, an assignment to a new name appends, a read or a deletion
  of an absent name raises \<open>AttributeError\<close>.
\<close>

type_synonym registry = "(string \<times> scenario) list"

definition getattr_scens :: "registry \<Rightarrow> string \<Rightarrow> error + scenario" where
  "getattr_scens reg k =
     (case map_of reg k of None \<Rightarrow> Inl (AttributeError k) | Some sc \<Rightarrow> Inr sc)"

definition setattr_scens :: "string \<Rightarrow> scenario \<Rightarrow> registry \<Rightarrow> registry" where
  "setattr_scens k sc reg = AList.update k sc reg"

definition delattr_scens :: "string \<Rightarrow> registry \<Rightarrow> error + registry" where
  "delattr_scens k reg =
     (case map_of reg k of
        None \<Rightarrow> Inl (AttributeError k)
      | Some _ \<Rightarrow> Inr (AList.delete k reg))"

text \<open>
  The case study: the registry \<open>scens\<close>, the attributes \<open>scen_vars\<close> and \<open>scen_df\<close> that
  \<open>add_scens\<close> sets (\<open>None\<close> also before the first sweep) and the objective variables
  \<open>obj_vars\<close>, by default \<open>("C_TOT_", "CE_TOT_")\<close>.
\<close>

type_synonym scen_var = "string \<times> string \<times> py_value list"

record case_study =
  scens :: registry
  scen_vars :: "scen_var list option"
  scen_df :: "(string \<times> (string \<times> py_value) list) list option"
  obj_vars :: "string list"

definition CaseStudy :: "string list \<Rightarrow> case_study" where
  "CaseStudy ov = \<lparr>scens = [], scen_vars = None, scen_df = None, obj_vars = ov\<rparr>"

text \<open>
  Modelled from the spec: \<open>self.scens.get_all()\<close>, a method of the registry class
  \<open>Scenarios\<close> of \<open>core/entity_stores.py\<close>, which is not among the sources; it gives the
  ordered mapping from id to scenario, in insertion order.
\<close>

definition scens_dic :: "case_study \<Rightarrow> registry" where
  "scens_dic cs = scens cs"

definition scens_ids :: "case_study \<Rightarrow> string list" where
  "scens_ids cs = map fst (scens_dic cs)"

definition scens_list :: "case_study \<Rightarrow> scenario list" where
  "scens_list cs = map snd (scens_dic cs)"

text \<open>\<open>valid_scens\<close>: the entries of the registry whose scenario has the attribute \<open>res\<close>.\<close>

definition valid_scens :: "case_study \<Rightarrow> registry" where
  "valid_scens cs = filter (\<lambda>(name, sc). res sc \<noteq> None) (scens_dic cs)"

text \<open>
  \<open>REF_scen\<close>: the scenario under the id \<open>REF\<close>; when the lookup raises
  \<open>AttributeError\<close>, the first scenario of \<open>scens_list\<close>, whose indexing raises
  \<open>IndexError\<close> on an empty registry.
\<close>

definition REF_scen :: "case_study \<Rightarrow> error + scenario" where
  "REF_scen cs =
     (case getattr_scens (scens cs) ''REF'' of
        Inr sc \<Rightarrow> Inr sc
      | Inl _ \<Rightarrow> (case scens_list cs of [] \<Rightarrow> Inl IndexError | sc # _ \<Rightarrow> Inr sc))"

text \<open>
  \<open>pareto\<close>: one row per entry of the registry, in its order, holding the value of every
  objective variable read from the scenario's results. \<open>sc.res\<close> raises
  \<open>AttributeError\<close> on a scenario without results, \<open>getattr(sc.res, var)\<close> on a missing variable.
\<close>

fun res_values :: "(string \<rightharpoonup> real) \<Rightarrow> string list \<Rightarrow> error + real list" where
  "res_values r [] = Inr []"
| "res_values r (v # vs) =
     (case r v of
        None \<Rightarrow> Inl (AttributeError v)
      | Some x \<Rightarrow> (case res_values r vs of Inl e \<Rightarrow> Inl e | Inr xs \<Rightarrow> Inr (x # xs)))"

definition pareto_row :: "string list \<Rightarrow> scenario \<Rightarrow> error + real list" where
  "pareto_row ov sc =
     (case res sc of None \<Rightarrow> Inl (AttributeError ''res'') | Some r \<Rightarrow> res_values r ov)"

fun pareto_rows :: "string list \<Rightarrow> registry \<Rightarrow> error + (string \<times> real list) list" where
  "pareto_rows ov [] = Inr []"
| "pareto_rows ov ((name, sc) # rest) =
     (case pareto_row ov sc of
        Inl e \<Rightarrow> Inl e
      | Inr row \<Rightarrow>
          (case pareto_rows ov rest of Inl e \<Rightarrow> Inl e | Inr rows \<Rightarrow> Inr ((name, row) # rows)))"

definition pareto :: "case_study \<Rightarrow> error + (string \<times> real list) list" where
  "pareto cs = pareto_rows (obj_vars cs) (scens_dic cs)"

section \<open>Adding one scenario\<close>

text \<open>Python's \<open>str\<close> of a natural number, for the ids \<open>sc<N>\<close>.\<close>

fun string_of_nat :: "nat \<Rightarrow> string" where
  "string_of_nat n =
     (if n < 10 then [char_of (48 + n)]
      else string_of_nat (n div 10) @ [char_of (48 + n mod 10)])"

declare string_of_nat.simps [simp del]

text \<open>
  \<open>add_scen\<close>: with \<open>based_on_last\<close> the base is the last id of the registry
  (\<open>scens_ids[-1]\<close> raises \<open>IndexError\<close> on an empty one) and its id is prepended to the doc; a
  missing id is \<open>sc\<close> followed by the number of scenarios; the scenario is created from
  scratch when there is no base and is a special copy of the base otherwise; it is
  stored under its id with \<open>setattr\<close>, without a look at what the id held before.
  The result is the new scenario and the case study; an error carries the case study as
  it was when the exception was raised.
\<close>

definition add_scen ::
  "string option \<Rightarrow> string \<Rightarrow> string \<Rightarrow> string option \<Rightarrow> bool \<Rightarrow> case_study
     \<Rightarrow> (error \<times> case_study) + (scenario \<times> case_study)" where
  "add_scen id0 name doc0 based_on0 based_on_last cs =
     (if based_on_last \<and> scens_ids cs = [] then Inl (IndexError, cs)
      else
        let based_on = (if based_on_last then Some (last (scens_ids cs)) else based_on0);
            doc = (if based_on_last then last (scens_ids cs) @ '' + '' @ doc0 else doc0);
            ident = (case id0 of
                       None \<Rightarrow> ''sc'' @ string_of_nat (length (scens_list cs))
                     | Some i \<Rightarrow> i)
        in (case based_on of
              None \<Rightarrow>
                (let sc = Scenario ident name doc
                 in Inr (sc, cs\<lparr>scens := setattr_scens ident sc (scens cs)\<rparr>))
            | Some b \<Rightarrow>
                (case getattr_scens (scens cs) b of
                   Inl e \<Rightarrow> Inl (e, cs)
                 | Inr parent \<Rightarrow>
                     (let sc = (special_copy parent)
                                 \<lparr>scen_id := ident, scen_name := name, scen_doc := doc\<rparr>
                      in Inr (sc, cs\<lparr>scens := setattr_scens ident sc (scens cs)\<rparr>)))))"

definition add_REF_scen ::
  "string \<Rightarrow> string \<Rightarrow> case_study \<Rightarrow> (error \<times> case_study) + (scenario \<times> case_study)" where
  "add_REF_scen name doc cs = add_scen (Some ''REF'') name doc None False cs"

section \<open>The sweep generator\<close>

text \<open>
  One entry of a sweep applied to the derived scenario (the body of the inner loop of
  \<open>add_scens\<close>): a value that is a string is replaced by \<open>sc.get_entity(value)\<close>; when
  the entity name is a key of \<open>sc.vars._meta\<close>, the keys \<open>lb\<close> and \<open>ub\<close> of its metadata
  are set to the value (its entry of the variable store is otherwise as it was),
  otherwise the parameter is updated.
\<close>

definition resolve_value :: "scenario \<Rightarrow> py_value \<Rightarrow> error + py_value" where
  "resolve_value sc v = (case v of Str s \<Rightarrow> get_entity sc s | _ \<Rightarrow> Inr v)"

definition set_entity :: "scenario \<Rightarrow> string \<Rightarrow> py_value \<Rightarrow> scenario" where
  "set_entity sc ent_name v =
     (case vars sc ent_name of
        Some x \<Rightarrow>
          sc\<lparr>vars := (vars sc)(ent_name \<mapsto> x\<lparr>var_meta := (var_meta x)(''lb'' \<mapsto> v, ''ub'' \<mapsto> v)\<rparr>)\<rparr>
      | None \<Rightarrow> update_params sc ent_name v)"

definition apply_entity_value :: "scenario \<Rightarrow> string \<times> py_value \<Rightarrow> error + scenario" where
  "apply_entity_value sc entry =
     (case entry of
        (ent_name, v) \<Rightarrow>
          (case resolve_value sc v of
             Inl e \<Rightarrow> Inl e
           | Inr w \<Rightarrow> Inr (set_entity sc ent_name w)))"

text \<open>The inner loop; an error carries the scenario as the earlier entries left it.\<close>

fun apply_entries :: "scenario \<Rightarrow> (string \<times> py_value) list \<Rightarrow> (error \<times> scenario) + scenario" where
  "apply_entries sc [] = Inr sc"
| "apply_entries sc (entry # entries) =
     (case apply_entity_value sc entry of
        Inl e \<Rightarrow> Inl (e, sc)
      | Inr sc' \<Rightarrow> apply_entries sc' entries)"

text \<open>
  \<open>np.linspace(0, 1, n)\<close>, the values of the Pareto axis: \<open>n\<close> evenly spaced points, the
  single point \<open>0\<close> for \<open>n = 1\<close>.
\<close>

definition linspace01 :: "nat \<Rightarrow> py_value list" where
  "linspace01 n = map (\<lambda>i. Num (if n = 1 then 0 else real i / real (n - 1))) [0..<n]"

text \<open>\<open>sep.join(xs)\<close> of Python.\<close>

fun join :: "string \<Rightarrow> string list \<Rightarrow> string" where
  "join sep [] = []"
| "join sep [x] = x"
| "join sep (x # y # ys) = x @ sep @ join sep (y # ys)"

text \<open>
  The table \<open>scen_df\<close>: the cartesian product of the value lists in the order of the
  axes, the first axis varying slowest (\<open>pd.MultiIndex.from_product\<close>), every point with
  its name, the short names each followed by the string of the value and joined by
  \<open>_\<close>, and with its entries \<open>(long name, value)\<close>. Python's \<open>str\<close> of a value is the
  parameter \<open>str_of\<close>.
\<close>

definition names_long :: "scen_var list \<Rightarrow> string list" where
  "names_long svs = map fst svs"

definition names_short :: "scen_var list \<Rightarrow> string list" where
  "names_short svs = map (\<lambda>sv. fst (snd sv)) svs"

definition value_lists :: "scen_var list \<Rightarrow> py_value list list" where
  "value_lists svs = map (\<lambda>sv. snd (snd sv)) svs"

definition make_scen_df ::
  "(py_value \<Rightarrow> string) \<Rightarrow> scen_var list \<Rightarrow> (string \<times> (string \<times> py_value) list) list" where
  "make_scen_df str_of svs =
     map (\<lambda>vals. (join ''_'' (map (\<lambda>(short, v). short @ str_of v) (zip (names_short svs) vals)),
                  zip (names_long svs) vals))
         (product_lists (value_lists svs))"

definition long_doc :: "(py_value \<Rightarrow> string) \<Rightarrow> (string \<times> py_value) list \<Rightarrow> string" where
  "long_doc str_of ser = join ''; '' (map (\<lambda>(n, v). n @ ''='' @ str_of v) ser)"

text \<open>
  The outer loop of \<open>add_scens\<close> over the columns of \<open>scen_df\<close>: the scenario is added
  under the id \<open>sc\<close> followed by the current size of the registry, as a copy of the base;
  its parameter \<open>timelog_params_\<close> is set to \<open>0\<close>; then the entries are applied. The
  scenario object is the one the registry holds under that id, so what the loop does to
  it is written back under the id, also when an entry raises.
\<close>

fun sweep_loop ::
  "(py_value \<Rightarrow> string) \<Rightarrow> string \<Rightarrow> (string \<times> (string \<times> py_value) list) list \<Rightarrow> case_study
     \<Rightarrow> (error \<times> case_study) + case_study" where
  "sweep_loop str_of based_on [] cs = Inr cs"
| "sweep_loop str_of based_on ((sc_name, ser) # rest) cs =
     (case add_scen (Some (''sc'' @ string_of_nat (length (scens_dic cs)))) sc_name
             (long_doc str_of ser) (Some based_on) False cs of
        Inl err \<Rightarrow> Inl err
      | Inr (sc, cs1) \<Rightarrow>
          (case apply_entries (update_params sc ''timelog_params_'' (Num 0)) ser of
             Inl (e, sc') \<Rightarrow> Inl (e, cs1\<lparr>scens := setattr_scens (scen_id sc) sc' (scens cs1)\<rparr>)
           | Inr sc' \<Rightarrow>
               sweep_loop str_of based_on rest
                 (cs1\<lparr>scens := setattr_scens (scen_id sc) sc' (scens cs1)\<rparr>)))"

text \<open>
  \<open>add_scens\<close>. Without \<open>scen_vars\<close> and with \<open>nParetoPoints > 0\<close> the axis list starts
  empty; without \<open>scen_vars\<close> and Pareto points the \<open>RuntimeError\<close> of the source is built
  but not raised, so \<open>scen_vars\<close> stays \<open>None\<close>. With \<open>nParetoPoints > 0\<close> the axis
  \<open>k_PTO_alpha_\<close> is appended. The attribute \<open>scen_vars\<close> is set. Then \<open>zip(*scen_vars)\<close>
  raises \<open>TypeError\<close> on \<open>None\<close>, the unpacking of its result into three names raises
  \<open>ValueError\<close> on an empty list, \<open>pd.MultiIndex.from_product\<close>, which hashes the values
  of every axis, raises \<open>TypeError\<close> on a value that cannot be hashed, a series, and
  \<open>reset_index\<close> raises \<open>ValueError\<close> when two axes have the same long name. After the loop
  the base is deleted when \<open>del_REF\<close> is set.
\<close>

definition hashable :: "py_value \<Rightarrow> bool" where
  "hashable v = (case v of Series xs \<Rightarrow> False | _ \<Rightarrow> True)"

definition add_scens ::
  "(py_value \<Rightarrow> string) \<Rightarrow> scen_var list option \<Rightarrow> int \<Rightarrow> bool \<Rightarrow> string \<Rightarrow> case_study
     \<Rightarrow> (error \<times> case_study) + case_study" where
  "add_scens str_of scen_vars0 nParetoPoints del_REF based_on cs =
     (let sv1 = (case scen_vars0 of
                   None \<Rightarrow> (if nParetoPoints > 0 then Some [] else None)
                 | Some svs \<Rightarrow> Some svs);
          sv2 = (if nParetoPoints > 0
                 then map_option
                        (\<lambda>svs. svs @ [(''k_PTO_alpha_'', ''a'', linspace01 (nat nParetoPoints))]) sv1
                 else sv1);
          cs1 = cs\<lparr>scen_vars := sv2\<rparr>
      in (case sv2 of
            None \<Rightarrow> Inl (TypeError, cs1)
          | Some svs \<Rightarrow>
              if svs = [] then Inl (ValueError, cs1)
              else if \<not> list_all (list_all hashable) (value_lists svs) then Inl (TypeError, cs1)
              else if \<not> distinct (names_long svs) then Inl (ValueError, cs1)
              else
                (let df = make_scen_df str_of svs;
                     cs2 = cs1\<lparr>scen_df := Some df\<rparr>
                 in (case sweep_loop str_of based_on df cs2 of
                       Inl err \<Rightarrow> Inl err
                     | Inr cs3 \<Rightarrow>
                         if del_REF
                         then (case delattr_scens based_on (scens cs3) of
                                 Inl e \<Rightarrow> Inl (e, cs3)
                               | Inr reg \<Rightarrow> Inr (cs3\<lparr>scens := reg\<rparr>))
                         else Inr cs3))))"

section \<open>Solving and the Pareto normalization\<close>

text \<open>
  \<open>CaseStudy.optimize\<close>: the scenarios to solve are given (here by their ids) or are
  all scenarios of the registry; each of them is optimized.
\<close>

definition optimize_scens ::
  "(scenario \<Rightarrow> status \<times> (string \<rightharpoonup> real)) \<Rightarrow> string list option \<Rightarrow> case_study \<Rightarrow> case_study" where
  "optimize_scens solver sel cs =
     cs\<lparr>scens := map (\<lambda>(name, sc).
                          (name, if (case sel of None \<Rightarrow> True | Some ids \<Rightarrow> name \<in> set ids)
                                 then optimize solver sc else sc))
                      (scens cs)\<rparr>"

text \<open>
  \<open>CaseStudy.set_params\<close>: the callback \<open>params_func\<close> of the caller is executed on the given
  scenarios, or on all. The callback, \<open>Scenario.set_params\<close> around it not being among
  the sources, is modelled from the spec (set parameters, build the model, solve) as a
  function that gives the scenario its parameter store and its variable store.
\<close>

definition set_params ::
  "(scenario \<Rightarrow> (string \<rightharpoonup> py_value) \<times> (string \<rightharpoonup> var_entity))
     \<Rightarrow> string list option \<Rightarrow> case_study \<Rightarrow> case_study" where
  "set_params params_func sel cs =
     cs\<lparr>scens := map (\<lambda>(name, sc).
                          (name, if (case sel of None \<Rightarrow> True | Some ids \<Rightarrow> name \<in> set ids)
                                 then sc\<lparr>params := fst (params_func sc),
                                         vars := snd (params_func sc)\<rparr>
                                 else sc))
                      (scens cs)\<rparr>"

text \<open>The mean of a numpy array of numbers and the quotient numpy computes from it.\<close>

definition mean :: "real list \<Rightarrow> real" where
  "mean xs = sum_list xs / real (length xs)"

definition np_div :: "real \<Rightarrow> real \<Rightarrow> py_value" where
  "np_div a b = (if b = 0 then NonFinite else Num (a / b))"

text \<open>
  One round of the first loop of \<open>improve_pareto_norm_factors\<close> for the weighting \<open>i\<close>,
  whose id is \<open>ident = str(i)\<close>: a probe scenario is added under that id as a copy of
  the base, its parameter \<open>k_PTO_alpha_\<close> is set to \<open>i\<close>, its model is built and solved,
  its total cost times \<open>adjust_factor\<close> and its total emissions are read from its results
  (\<open>AttributeError\<close> when they are missing, the probe then still registered), and the
  probe is deleted from the registry.
\<close>

definition pareto_probe ::
  "(scenario \<Rightarrow> status \<times> (string \<rightharpoonup> real)) \<Rightarrow> real \<Rightarrow> string \<Rightarrow> string \<Rightarrow> real \<Rightarrow> case_study
     \<Rightarrow> (error \<times> case_study) + ((real \<times> real) \<times> case_study)" where
  "pareto_probe solver adjust_factor basis_scen_id ident i cs =
     (case add_scen (Some ident) ''pareto_improver'' [] (Some basis_scen_id) False cs of
        Inl err \<Rightarrow> Inl err
      | Inr (sc0, cs1) \<Rightarrow>
          (let sc = optimize solver (sc0\<lparr>params := (params sc0)(''k_PTO_alpha_'' \<mapsto> Num i)\<rparr>);
               cs2 = cs1\<lparr>scens := setattr_scens ident sc (scens cs1)\<rparr>
           in (case res sc of
                 None \<Rightarrow> Inl (AttributeError ''res'', cs2)
               | Some r \<Rightarrow>
                   (case r ''C_TOT_'' of
                      None \<Rightarrow> Inl (AttributeError ''C_TOT_'', cs2)
                    | Some c \<Rightarrow>
                        (case r ''CE_TOT_'' of
                           None \<Rightarrow> Inl (AttributeError ''CE_TOT_'', cs2)
                         | Some ce \<Rightarrow>
                             (case delattr_scens ident (scens cs2) of
                                Inl e \<Rightarrow> Inl (e, cs2)
                              | Inr reg \<Rightarrow> Inr ((c * adjust_factor, ce), cs2\<lparr>scens := reg\<rparr>)))))))"

text \<open>
  The probe scenario of a round as the solver receives it: the copy of the base \<open>b\<close> under
  the probe's id, with the weighting set.
\<close>

definition probe_scen :: "scenario \<Rightarrow> string \<Rightarrow> real \<Rightarrow> scenario" where
  "probe_scen b ident i =
     ((special_copy b)\<lparr>scen_id := ident, scen_name := ''pareto_improver'', scen_doc := []\<rparr>)
       \<lparr>params := (params b)(''k_PTO_alpha_'' \<mapsto> Num i)\<rparr>"

text \<open>The second loop: both factors are set as parameters of every scenario of the registry.\<close>

definition set_norm_factors :: "real list \<Rightarrow> real list \<Rightarrow> scenario \<Rightarrow> scenario" where
  "set_norm_factors nC nCE sc =
     sc\<lparr>params := (params sc)(''k_PTO_C_'' \<mapsto> np_div 1000 (mean nC),
                                ''k_PTO_CE_'' \<mapsto> np_div 1000 (mean nCE))\<rparr>"

definition improve_pareto_norm_factors ::
  "(scenario \<Rightarrow> status \<times> (string \<rightharpoonup> real)) \<Rightarrow> real \<Rightarrow> string \<Rightarrow> case_study
     \<Rightarrow> (error \<times> case_study) + case_study" where
  "improve_pareto_norm_factors solver adjust_factor basis_scen_id cs =
     (case pareto_probe solver adjust_factor basis_scen_id ''0'' 0 cs of
        Inl err \<Rightarrow> Inl err
      | Inr ((c0, ce0), cs1) \<Rightarrow>
          (case pareto_probe solver adjust_factor basis_scen_id ''1'' 1 cs1 of
             Inl err \<Rightarrow> Inl err
           | Inr ((c1, ce1), cs2) \<Rightarrow>
               Inr (cs2\<lparr>scens := map (\<lambda>(name, sc). (name, set_norm_factors [c0, c1] [ce0, ce1] sc))
                                      (scens cs2)\<rparr>)))"

text \<open>
  \<open>import_scens\<close>: the ids of the other case study, without the excluded ones and
  restricted to the included ones when these lists are given, are stored in this
  registry with \<open>setattr\<close>, in the order of the other registry.
\<close>

definition import_scens ::
  "case_study \<Rightarrow> string list option \<Rightarrow> string list option \<Rightarrow> case_study \<Rightarrow> case_study" where
  "import_scens other_cs exclude incl cs =
     (let scen_dic = scens other_cs;
          to_import0 = map fst scen_dic;
          to_import1 = (case exclude of
                          None \<Rightarrow> to_import0
                        | Some ex \<Rightarrow> filter (\<lambda>n. n \<notin> set ex) to_import0);
          to_import2 = (case incl of
                          None \<Rightarrow> to_import1
                        | Some inc \<Rightarrow> filter (\<lambda>n. n \<in> set inc) to_import1)
      in cs\<lparr>scens := fold (\<lambda>(name, sc) reg. if name \<in> set to_import2
                                              then setattr_scens name sc reg else reg)
                          scen_dic (scens cs)\<rparr>)"

section \<open>Case studies built by the operations\<close>

text \<open>
  The case studies a caller can build: an empty one, and what \<open>add_scen\<close>, \<open>add_scens\<close>,
  \<open>set_params\<close>, \<open>optimize\<close>, \<open>improve_pareto_norm_factors\<close> and \<open>import_scens\<close> make of one,
  whether the call returns or raises (a raising call leaves the case study as it was at
  the raise).
\<close>

inductive reachable :: "case_study \<Rightarrow> bool" where
  reach_init: "reachable (CaseStudy ov)"
| reach_add_scen:
    "reachable cs \<Longrightarrow> add_scen id0 name doc based_on based_on_last cs = Inr (sc, cs')
       \<Longrightarrow> reachable cs'"
| reach_add_scens:
    "reachable cs \<Longrightarrow> add_scens str_of scen_vars0 nParetoPoints del_REF based_on cs = Inr cs'
       \<Longrightarrow> reachable cs'"
| reach_add_scens_raise:
    "reachable cs \<Longrightarrow> add_scens str_of scen_vars0 nParetoPoints del_REF based_on cs = Inl (e, cs')
       \<Longrightarrow> reachable cs'"
| reach_set_params:
    "reachable cs \<Longrightarrow> reachable (set_params params_func sel cs)"
| reach_optimize:
    "reachable cs \<Longrightarrow> reachable (optimize_scens solver sel cs)"
| reach_improve:
    "reachable cs \<Longrightarrow> improve_pareto_norm_factors solver adjust_factor basis_scen_id cs = Inr cs'
       \<Longrightarrow> reachable cs'"
| reach_improve_raise:
    "reachable cs \<Longrightarrow> improve_pareto_norm_factors solver adjust_factor basis_scen_id cs = Inl (e, cs')
       \<Longrightarrow> reachable cs'"
| reach_import:
    "reachable cs \<Longrightarrow> reachable other_cs \<Longrightarrow> reachable (import_scens other_cs exclude incl cs)"

text \<open>The case study a call leaves behind, returned or carried by the exception.\<close>

definition state_after :: "(error \<times> case_study) + case_study \<Rightarrow> case_study" where
  "state_after r = (case r of Inl (e, cs) \<Rightarrow> cs | Inr cs \<Rightarrow> cs)"

text \<open>
  A scenario whose results and solve status agree: it has results exactly when its last
  solve ended \<open>OPTIMAL\<close> or \<open>SUBOPTIMAL\<close>.
\<close>

definition solved_iff_optimal :: "scenario \<Rightarrow> bool" where
  "solved_iff_optimal sc =
     ((res sc \<noteq> None) = (solve_status sc = Some OPTIMAL \<or> solve_status sc = Some SUBOPTIMAL))"

section \<open>Example case studies\<close>

text \<open>
  A reference scenario with the parameters \<open>c_GRID_T\<close> and \<open>c_GRID_RTP_T\<close> and the variable
  \<open>P_PV_CAPx_\<close> of value 0, a case study that holds it, and a solver that always finds an optimum, with
  total cost 100 and emissions 20 at weighting 0, and 300 and 60 otherwise.
\<close>

definition ex_ref :: scenario where
  "ex_ref =
     (Scenario ''REF'' ''REF'' ''Reference scenario'')
       \<lparr>params := [''c_GRID_T'' \<mapsto> Num 1, ''c_GRID_RTP_T'' \<mapsto> Series [2, 3]],
        vars := [''P_PV_CAPx_'' \<mapsto>
                   \<lparr>var_value = Num 0, var_meta = [''lb'' \<mapsto> Num 0, ''ub'' \<mapsto> Num 100]\<rparr>]\<rparr>"

definition ex_cs :: case_study where
  "ex_cs = (CaseStudy [''C_TOT_'', ''CE_TOT_''])\<lparr>scens := [(''REF'', ex_ref)]\<rparr>"

definition ex_solver :: "scenario \<Rightarrow> status \<times> (string \<rightharpoonup> real)" where
  "ex_solver sc =
     (if params sc ''k_PTO_alpha_'' = Some (Num 0)
      then (OPTIMAL, [''C_TOT_'' \<mapsto> 100, ''CE_TOT_'' \<mapsto> 20])
      else (OPTIMAL, [''C_TOT_'' \<mapsto> 300, ''CE_TOT_'' \<mapsto> 60]))"

text \<open>A solver that finds the reference scenario optimal and every other one infeasible.\<close>

definition ex_solver_ref_only :: "scenario \<Rightarrow> status \<times> (string \<rightharpoonup> real)" where
  "ex_solver_ref_only sc =
     (if scen_id sc = ''REF''
      then (OPTIMAL, [''C_TOT_'' \<mapsto> 100, ''CE_TOT_'' \<mapsto> 20])
      else (INFEASIBLE, Map.empty))"

text \<open>Python's \<open>str\<close> on the values of the examples.\<close>

definition ex_str :: "py_value \<Rightarrow> string" where
  "ex_str v =
     (case v of
        Str s \<Rightarrow> s
      | Num x \<Rightarrow> (if x = 1 then ''1'' else if x = 2 then ''2'' else if x = 5 then ''5'' else ''0'')
      | _ \<Rightarrow> ''nan'')"

text \<open>
  The case study with the reference scenario and a scenario \<open>sc1\<close> derived from it, after
  both were solved with \<open>ex_solver_ref_only\<close>: \<open>REF\<close> has results, \<open>sc1\<close> has none.
\<close>

definition ex_two :: case_study where
  "ex_two =
     (case add_scen (Some ''sc1'') ''first'' [] (Some ''REF'') False ex_cs of
        Inl (e, cs) \<Rightarrow> cs
      | Inr (sc, cs) \<Rightarrow> cs)"

definition ex_mixed :: case_study where
  "ex_mixed = optimize_scens ex_solver_ref_only None ex_two"

text \<open>The same case study after both scenarios were solved with \<open>ex_solver\<close>.\<close>

definition ex_solved :: case_study where
  "ex_solved = optimize_scens ex_solver None ex_two"

text \<open>A case study whose user registered a scenario under the id \<open>0\<close>.\<close>

definition ex_zero :: case_study where
  "ex_zero =
     (case add_scen (Some ''0'') ''mine'' [] (Some ''REF'') False ex_cs of
        Inl (e, cs) \<Rightarrow> cs
      | Inr (sc, cs) \<Rightarrow> cs)"

text \<open>A case study whose only scenario, the base of the user, is registered under the id \<open>1\<close>.\<close>

definition ex_one :: case_study where
  "ex_one = (CaseStudy [''C_TOT_'', ''CE_TOT_''])\<lparr>scens := [(''1'', ex_ref\<lparr>scen_id := ''1''\<rparr>)]\<rparr>"

text \<open>
  The case study after a sweep over one axis with one value that deletes its base: the
  registry holds the single id \<open>sc1\<close>.
\<close>

definition ex_swept :: case_study where
  "ex_swept = state_after (add_scens ex_str (Some [(''c_GRID_T'', ''t'', [Num 5])]) 0 True ''REF'' ex_cs)"

section \<open>The registry operations\<close>

lemma map_of_setattr_scens: "map_of (setattr_scens k sc reg) = (map_of reg)(k \<mapsto> sc)"
  by (simp add: setattr_scens_def update_conv')

lemma keys_setattr_present:
  "map_of reg k \<noteq> None \<Longrightarrow> map fst (setattr_scens k sc reg) = map fst reg"
  by (simp add: setattr_scens_def update_keys map_of_eq_None_iff)

lemma keys_setattr_absent:
  "map_of reg k = None \<Longrightarrow> map fst (setattr_scens k sc reg) = map fst reg @ [k]"
  by (simp add: setattr_scens_def update_keys map_of_eq_None_iff)

lemma keys_delete: "map fst (AList.delete k reg) = filter (\<lambda>i. i \<noteq> k) (map fst reg)"
  by (induction reg) auto

lemma delattr_scens_Inr:
  "delattr_scens k reg = Inr reg' \<Longrightarrow> reg' = AList.delete k reg \<and> map_of reg k \<noteq> None"
  by (auto simp: delattr_scens_def split: option.splits)

lemmas registry_defs =
  scens_ids_def scens_dic_def scens_list_def getattr_scens_def setattr_scens_def delattr_scens_def

lemma scens_ex_cs: "scens ex_cs = [(''REF'', ex_ref)]"
  by (simp add: ex_cs_def CaseStudy_def)

lemma scens_ex_two:
  "scens ex_two =
     [(''REF'', ex_ref),
      (''sc1'', (special_copy ex_ref)\<lparr>scen_id := ''sc1'', scen_name := ''first'', scen_doc := []\<rparr>)]"
  by (simp add: ex_two_def add_scen_def scens_ex_cs registry_defs Let_def)

section \<open>The reference scenario\<close>

text \<open>
  Claim C10. On a case study whose registry is not empty, \<open>REF_scen\<close> does not raise: it
  returns the scenario stored under the id \<open>REF\<close> when there is one, and the first
  scenario of the registry, in insertion order, when there is none.
\<close>

theorem REF_scen_nonempty:
  assumes "scens cs = (name, first) # rest"
  shows "REF_scen cs = Inr (case map_of (scens cs) ''REF'' of Some sc \<Rightarrow> sc | None \<Rightarrow> first)"
  using assms
  by (simp add: REF_scen_def getattr_scens_def scens_list_def scens_dic_def split: option.splits)

theorem REF_scen_nonempty_witness:
  "scens (ex_cs\<lparr>scens := [(''sc0'', ex_ref), (''REF'', ex_ref\<lparr>scen_name := ''base''\<rparr>)]\<rparr>)
     = (''sc0'', ex_ref) # [(''REF'', ex_ref\<lparr>scen_name := ''base''\<rparr>)]
   \<and> REF_scen (ex_cs\<lparr>scens := [(''sc0'', ex_ref), (''REF'', ex_ref\<lparr>scen_name := ''base''\<rparr>)]\<rparr>)
     = Inr (ex_ref\<lparr>scen_name := ''base''\<rparr>)
   \<and> REF_scen (ex_cs\<lparr>scens := [(''sc0'', ex_ref)]\<rparr>) = Inr ex_ref"
  using REF_scen_nonempty
          [of "ex_cs\<lparr>scens := [(''sc0'', ex_ref), (''REF'', ex_ref\<lparr>scen_name := ''base''\<rparr>)]\<rparr>"
              "''sc0''" ex_ref "[(''REF'', ex_ref\<lparr>scen_name := ''base''\<rparr>)]"]
        REF_scen_nonempty [of "ex_cs\<lparr>scens := [(''sc0'', ex_ref)]\<rparr>" "''sc0''" ex_ref "[]"]
  by simp

section \<open>Adding under an id that is present\<close>

text \<open>
  Claim C3, as the code has it. Adding a scenario under an id that is already present
  does not fail: when no base is asked for or the base exists, \<open>add_scen\<close> returns the
  new scenario, which replaces the one stored under the id; the ids of the registry and
  their order are unchanged, and so are the scenarios under the other ids.
\<close>

theorem add_scen_duplicate_replaces:
  assumes "map_of (scens cs) i \<noteq> None"
    and "case based_on of None \<Rightarrow> True | Some b \<Rightarrow> map_of (scens cs) b \<noteq> None"
  shows "\<exists>sc cs'. add_scen (Some i) name doc based_on False cs = Inr (sc, cs')
           \<and> scen_id sc = i \<and> scen_name sc = name
           \<and> scens_ids cs' = scens_ids cs
           \<and> map_of (scens cs') = (map_of (scens cs))(i \<mapsto> sc)"
  using assms
  by (auto simp: add_scen_def getattr_scens_def Let_def map_of_setattr_scens keys_setattr_present
        Scenario_def scens_ids_def scens_dic_def split: option.splits)

theorem add_scen_duplicate_replaces_witness:
  "map_of (scens ex_two) ''sc1'' \<noteq> None
   \<and> (case Some ''REF'' of None \<Rightarrow> True | Some b \<Rightarrow> map_of (scens ex_two) b \<noteq> None)
   \<and> (\<exists>sc cs'. add_scen (Some ''sc1'') ''second'' [] (Some ''REF'') False ex_two = Inr (sc, cs')
           \<and> scen_id sc = ''sc1'' \<and> scen_name sc = ''second''
           \<and> scens_ids cs' = scens_ids ex_two
           \<and> map_of (scens cs') = (map_of (scens ex_two))(''sc1'' \<mapsto> sc))"
proof -
  have present: "map_of (scens ex_two) ''sc1'' \<noteq> None"
    by (simp add: scens_ex_two)
  have base: "case Some ''REF'' of None \<Rightarrow> True | Some b \<Rightarrow> map_of (scens ex_two) b \<noteq> None"
    by (simp add: scens_ex_two)
  from add_scen_duplicate_replaces [OF present base, of "''second''" "[]"] present base
  show ?thesis by blast
qed

text \<open>
  Claim C3 as the spec states it fails: the case study \<open>ex_two\<close> holds the ids \<open>REF\<close> and
  \<open>sc1\<close>, and adding a scenario under \<open>sc1\<close> again returns without an error and changes
  the registry, whose scenario \<open>sc1\<close> is now the one named \<open>second\<close>.
\<close>

theorem add_scen_duplicate_counterexample:
  "\<not> isl (add_scen (Some ''sc1'') ''second'' [] (Some ''REF'') False ex_two)
   \<and> map scen_name
       (scens_list (snd (projr (add_scen (Some ''sc1'') ''second'' [] (Some ''REF'') False ex_two))))
     = [''REF'', ''second'']
   \<and> map scen_name (scens_list ex_two) = [''REF'', ''first'']
   \<and> scens_ids ex_two = [''REF'', ''sc1'']"
  by (simp add: add_scen_def scens_ex_two registry_defs Let_def special_copy_def ex_ref_def
        Scenario_def)

section \<open>A sweep without axes\<close>

text \<open>
  Claim C4. A sweep without axes and without Pareto points: with no axis list the
  configuration error of the source is built and not raised, the attribute \<open>scen_vars\<close>
  is set to \<open>None\<close>, and the call fails with the \<open>TypeError\<close> of \<open>zip(*None)\<close>; with an empty
  axis list it fails with the \<open>ValueError\<close> of the unpacking. The registry is as before.
\<close>

theorem add_scens_no_axes:
  "add_scens str_of None 0 del_REF based_on cs = Inl (TypeError, cs\<lparr>scen_vars := None\<rparr>)
   \<and> add_scens str_of (Some []) 0 del_REF based_on cs = Inl (ValueError, cs\<lparr>scen_vars := Some []\<rparr>)
   \<and> scens (state_after (add_scens str_of None 0 del_REF based_on cs)) = scens cs
   \<and> scens (state_after (add_scens str_of (Some []) 0 del_REF based_on cs)) = scens cs"
  by (simp add: add_scens_def state_after_def)

section \<open>Applying one entry of a sweep\<close>









section \<open>The Pareto table\<close>

lemma res_values_ok:
  "\<forall>v \<in> set ov. r v \<noteq> None \<Longrightarrow> res_values r ov = Inr (map (\<lambda>v. the (r v)) ov)"
  by (induction ov) auto

lemma res_values_error: "res_values r ov = Inl e \<Longrightarrow> \<exists>a. e = AttributeError a"
  by (induction ov arbitrary: e) (auto split: option.splits sum.splits)

lemma pareto_row_error: "pareto_row ov sc = Inl e \<Longrightarrow> \<exists>a. e = AttributeError a"
  by (auto simp: pareto_row_def split: option.splits dest: res_values_error)

lemma pareto_rows_ok:
  "\<forall>(n, sc) \<in> set reg. \<exists>r. res sc = Some r \<and> (\<forall>v \<in> set ov. r v \<noteq> None)
   \<Longrightarrow> pareto_rows ov reg = Inr (map (\<lambda>(n, sc). (n, map (\<lambda>v. the (the (res sc) v)) ov)) reg)"
  by (induction ov reg rule: pareto_rows.induct) (auto simp: pareto_row_def res_values_ok)

lemma pareto_rows_unsolved:
  "(n, sc) \<in> set reg \<Longrightarrow> res sc = None \<Longrightarrow> \<exists>a. pareto_rows ov reg = Inl (AttributeError a)"
proof (induction ov reg rule: pareto_rows.induct)
  case (1 ov)
  then show ?case by simp
next
  case (2 ov name sc' rest)
  show ?case
  proof (cases "pareto_row ov sc'")
    case (Inl e)
    then show ?thesis using pareto_row_error [OF Inl] by auto
  next
    case (Inr row)
    with 2 have "(n, sc) \<in> set rest" by (auto simp: pareto_row_def)
    with 2 Inr obtain a where "pareto_rows ov rest = Inl (AttributeError a)" by blast
    with Inr show ?thesis by simp
  qed
qed

lemma scens_ex_solved:
  "scens ex_solved =
     [(''REF'', optimize ex_solver ex_ref),
      (''sc1'', optimize ex_solver
                 ((special_copy ex_ref)\<lparr>scen_id := ''sc1'', scen_name := ''first'', scen_doc := []\<rparr>))]"
  by (simp add: ex_solved_def optimize_scens_def scens_ex_two)

lemma scens_ex_mixed:
  "scens ex_mixed =
     [(''REF'', optimize ex_solver_ref_only ex_ref),
      (''sc1'', optimize ex_solver_ref_only
                 ((special_copy ex_ref)\<lparr>scen_id := ''sc1'', scen_name := ''first'', scen_doc := []\<rparr>))]"
  by (simp add: ex_mixed_def optimize_scens_def scens_ex_two)

lemma obj_vars_examples:
  "obj_vars ex_two = [''C_TOT_'', ''CE_TOT_'']"
  "obj_vars ex_solved = [''C_TOT_'', ''CE_TOT_'']"
  "obj_vars ex_mixed = [''C_TOT_'', ''CE_TOT_'']"
  by (simp_all add: ex_solved_def ex_mixed_def optimize_scens_def ex_two_def add_scen_def ex_cs_def
        CaseStudy_def Let_def registry_defs)

text \<open>
  Claim C9, as the code has it. The Pareto table has one row for every scenario of the
  registry, keyed by the scenario id and in the order of the registry, holding the
  values of the objective variables in the scenario's results; it is built when every
  registered scenario has results that hold all objective variables. A registered
  scenario without results is not left out: building the table then raises an
  \<open>AttributeError\<close>.
\<close>

theorem pareto_table:
  "((\<forall>(n, sc) \<in> set (scens_dic cs). \<exists>r. res sc = Some r \<and> (\<forall>v \<in> set (obj_vars cs). r v \<noteq> None))
      \<longrightarrow> pareto cs
            = Inr (map (\<lambda>(n, sc). (n, map (\<lambda>v. the (the (res sc) v)) (obj_vars cs))) (scens_dic cs))
          \<and> map fst (map (\<lambda>(n, sc). (n, map (\<lambda>v. the (the (res sc) v)) (obj_vars cs))) (scens_dic cs))
            = scens_ids cs)
   \<and> ((\<exists>(n, sc) \<in> set (scens_dic cs). res sc = None) \<longrightarrow> (\<exists>a. pareto cs = Inl (AttributeError a)))"
proof (intro conjI impI)
  assume "\<forall>(n, sc) \<in> set (scens_dic cs). \<exists>r. res sc = Some r \<and> (\<forall>v \<in> set (obj_vars cs). r v \<noteq> None)"
  then show "pareto cs
      = Inr (map (\<lambda>(n, sc). (n, map (\<lambda>v. the (the (res sc) v)) (obj_vars cs))) (scens_dic cs))"
    unfolding pareto_def by (rule pareto_rows_ok)
next
  show "map fst (map (\<lambda>(n, sc). (n, map (\<lambda>v. the (the (res sc) v)) (obj_vars cs))) (scens_dic cs))
          = scens_ids cs"
    by (simp add: scens_ids_def case_prod_unfold)
next
  assume "\<exists>(n, sc) \<in> set (scens_dic cs). res sc = None"
  then show "\<exists>a. pareto cs = Inl (AttributeError a)"
    unfolding pareto_def by (auto dest: pareto_rows_unsolved)
qed

theorem pareto_table_witness:
  "pareto ex_solved = Inr [(''REF'', [300, 60]), (''sc1'', [300, 60])]
   \<and> scens_ids ex_solved = [''REF'', ''sc1'']
   \<and> (\<exists>a. pareto ex_mixed = Inl (AttributeError a))"
proof -
  have solved: "\<forall>(n, sc) \<in> set (scens_dic ex_solved).
                  \<exists>r. res sc = Some r \<and> (\<forall>v \<in> set (obj_vars ex_solved). r v \<noteq> None)"
    by (simp add: scens_dic_def scens_ex_solved obj_vars_examples optimize_def ex_solver_def
          special_copy_def ex_ref_def Scenario_def)
  have unsolved: "\<exists>(n, sc) \<in> set (scens_dic ex_mixed). res sc = None"
    by (simp add: scens_dic_def scens_ex_mixed optimize_def ex_solver_ref_only_def special_copy_def)
  have ids: "scens_ids ex_solved = [''REF'', ''sc1'']"
    by (simp add: scens_ids_def scens_dic_def scens_ex_solved)
  have rows: "map (\<lambda>(n, sc). (n, map (\<lambda>v. the (the (res sc) v)) (obj_vars ex_solved)))
                (scens_dic ex_solved)
              = [(''REF'', [300, 60]), (''sc1'', [300, 60])]"
    by (simp add: scens_dic_def scens_ex_solved obj_vars_examples optimize_def ex_solver_def
          special_copy_def ex_ref_def Scenario_def)
  from pareto_table [of ex_solved] solved rows
  have "pareto ex_solved = Inr [(''REF'', [300, 60]), (''sc1'', [300, 60])]" by simp
  moreover from pareto_table [of ex_mixed] unsolved
  have "\<exists>a. pareto ex_mixed = Inl (AttributeError a)" by blast
  ultimately show ?thesis using ids by blast
qed

text \<open>
  Claim C9 as the spec states it fails: in \<open>ex_mixed\<close> the scenario \<open>REF\<close> has results and
  \<open>sc1\<close>, found infeasible, has none; the valid scenarios are \<open>REF\<close> alone, and building
  the Pareto table raises \<open>AttributeError\<close> instead of leaving \<open>sc1\<close> out.
\<close>

theorem pareto_unsolved_counterexample:
  "pareto ex_mixed = Inl (AttributeError ''res'')
   \<and> scens_ids ex_mixed = [''REF'', ''sc1'']
   \<and> map fst (valid_scens ex_mixed) = [''REF'']"
  by (simp add: pareto_def pareto_row_def valid_scens_def scens_ids_def scens_dic_def scens_ex_mixed
        obj_vars_examples optimize_def ex_solver_ref_only_def special_copy_def ex_ref_def
        Scenario_def)

section \<open>String values of a sweep\<close>





lemma set_entity_frame:
  "res (set_entity sc ent w) = res sc"
  "solve_status (set_entity sc ent w) = solve_status sc"
  "scen_id (set_entity sc ent w) = scen_id sc"
  "dom (params (set_entity sc ent w)) \<subseteq> insert ent (dom (params sc))"
  "dom (vars (set_entity sc ent w)) = dom (vars sc)"
  by (auto simp: set_entity_def update_params_def split: option.splits if_splits)

lemma apply_entity_value_frame:
  assumes "apply_entity_value sc (ent, v) = Inr sc'"
  shows "res sc' = res sc" and "solve_status sc' = solve_status sc" and "scen_id sc' = scen_id sc"
    and "dom (params sc') \<subseteq> insert ent (dom (params sc))"
    and "dom (vars sc') = dom (vars sc)"
proof -
  from assms obtain w where "sc' = set_entity sc ent w"
    by (auto simp: apply_entity_value_def split: sum.splits)
  with set_entity_frame [of sc ent w]
  show "res sc' = res sc" and "solve_status sc' = solve_status sc" and "scen_id sc' = scen_id sc"
    and "dom (params sc') \<subseteq> insert ent (dom (params sc))"
    and "dom (vars sc') = dom (vars sc)"
    by simp_all
qed


lemma apply_entries_frame:
  "apply_entries sc ser = Inr sc'
   \<Longrightarrow> res sc' = res sc \<and> solve_status sc' = solve_status sc \<and> scen_id sc' = scen_id sc
       \<and> dom (vars sc') = dom (vars sc)
       \<and> dom (params sc') \<subseteq> dom (params sc) \<union> fst ` set ser"
proof (induction ser arbitrary: sc)
  case Nil
  then show ?case by simp
next
  case (Cons entry ser)
  obtain ent v where entry: "entry = (ent, v)" by (cases entry)
  from Cons.prems obtain sc1 where step: "apply_entity_value sc (ent, v) = Inr sc1"
    and rest: "apply_entries sc1 ser = Inr sc'"
    by (auto simp: entry split: sum.splits)
  from Cons.IH [OF rest] apply_entity_value_frame [OF step] show ?case
    by (simp add: entry) blast
qed

lemma apply_entries_raise_frame:
  "apply_entries sc ser = Inl (e, sc')
   \<Longrightarrow> res sc' = res sc \<and> solve_status sc' = solve_status sc \<and> scen_id sc' = scen_id sc"
proof (induction ser arbitrary: sc)
  case Nil
  then show ?case by simp
next
  case (Cons entry ser)
  obtain ent v where entry: "entry = (ent, v)" by (cases entry)
  show ?case
  proof (cases "apply_entity_value sc (ent, v)")
    case (Inl err)
    with Cons.prems show ?thesis by (simp add: entry)
  next
    case (Inr sc1)
    with Cons.prems have rest: "apply_entries sc1 ser = Inl (e, sc')" by (simp add: entry)
    from Cons.IH [OF rest] apply_entity_value_frame [OF Inr] show ?thesis by simp
  qed
qed


lemma add_scen_based_on:
  "add_scen (Some i) n d (Some b) False cs =
     (case map_of (scens cs) b of
        None \<Rightarrow> Inl (AttributeError b, cs)
      | Some parent \<Rightarrow>
          Inr ((special_copy parent)\<lparr>scen_id := i, scen_name := n, scen_doc := d\<rparr>,
               cs\<lparr>scens := setattr_scens i
                                ((special_copy parent)\<lparr>scen_id := i, scen_name := n, scen_doc := d\<rparr>)
                                (scens cs)\<rparr>))"
  by (simp add: add_scen_def getattr_scens_def Let_def split: option.splits)

lemma sweep_loop_Cons:
  assumes "map_of (scens cs) based_on = Some b"
  shows "sweep_loop str_of based_on ((nm, ser) # df) cs =
     (let ident = ''sc'' @ string_of_nat (length (scens_dic cs));
          sc = (special_copy b)\<lparr>scen_id := ident, scen_name := nm, scen_doc := long_doc str_of ser\<rparr>;
          cs1 = cs\<lparr>scens := setattr_scens ident sc (scens cs)\<rparr>
      in (case apply_entries (update_params sc ''timelog_params_'' (Num 0)) ser of
            Inl (e, sc') \<Rightarrow> Inl (e, cs1\<lparr>scens := setattr_scens ident sc' (scens cs1)\<rparr>)
          | Inr sc' \<Rightarrow>
              sweep_loop str_of based_on df (cs1\<lparr>scens := setattr_scens ident sc' (scens cs1)\<rparr>)))"
  using assms by (simp add: add_scen_based_on Let_def split: sum.splits prod.splits)

lemma sweep_loop_no_base:
  assumes "map_of (scens cs) based_on = None"
  shows "sweep_loop str_of based_on ((nm, ser) # df) cs = Inl (AttributeError based_on, cs)"
  using assms by (simp add: add_scen_based_on)







lemma add_scens_axes:
  assumes "svs \<noteq> []" and "distinct (names_long svs)"
    and "list_all (list_all hashable) (value_lists svs)"
  shows "add_scens str_of (Some svs) 0 del_REF based_on cs =
     (case sweep_loop str_of based_on (make_scen_df str_of svs)
             (cs\<lparr>scen_vars := Some svs, scen_df := Some (make_scen_df str_of svs)\<rparr>) of
        Inl err \<Rightarrow> Inl err
      | Inr cs3 \<Rightarrow>
          if del_REF
          then (case delattr_scens based_on (scens cs3) of
                  Inl e \<Rightarrow> Inl (e, cs3)
                | Inr reg \<Rightarrow> Inr (cs3\<lparr>scens := reg\<rparr>))
          else Inr cs3)"
  using assms by (simp add: add_scens_def Let_def)

lemma add_scens_unhashable:
  assumes "svs \<noteq> []" and "\<not> list_all (list_all hashable) (value_lists svs)"
  shows "add_scens str_of (Some svs) 0 del_REF based_on cs
           = Inl (TypeError, cs\<lparr>scen_vars := Some svs\<rparr>)"
  using assms by (simp add: add_scens_def Let_def)




section \<open>The Pareto normalization\<close>

lemma delete_setattr_scens: "AList.delete k (setattr_scens k sc reg) = AList.delete k reg"
  by (simp add: setattr_scens_def delete_update_same)

lemma pareto_probe_ok:
  assumes "map_of (scens cs) basis = Some b"
    and "solver (probe_scen b ident i) = (st, r)" and "st = OPTIMAL \<or> st = SUBOPTIMAL"
    and "r ''C_TOT_'' = Some c" and "r ''CE_TOT_'' = Some ce"
  shows "pareto_probe solver a basis ident i cs
           = Inr ((c * a, ce), cs\<lparr>scens := AList.delete ident (scens cs)\<rparr>)"
  using assms unfolding probe_scen_def
  by (auto simp: pareto_probe_def add_scen_based_on Let_def delattr_scens_def
        map_of_setattr_scens delete_setattr_scens optimize_def special_copy_def
        split: option.splits)

lemma pareto_probe_Inr:
  assumes "pareto_probe solver a basis ident i cs = Inr ((c, ce), cs')"
  shows "cs' = cs\<lparr>scens := AList.delete ident (scens cs)\<rparr>"
  using assms
  by (auto simp: pareto_probe_def add_scen_based_on Let_def delattr_scens_def
        map_of_setattr_scens delete_setattr_scens split: option.splits)

lemma improve_pareto_norm_factors_Inr:
  assumes "improve_pareto_norm_factors solver a basis cs = Inr cs'"
  shows "\<exists>nC nCE. cs' = cs\<lparr>scens := map (\<lambda>(name, sc). (name, set_norm_factors nC nCE sc))
                                       (AList.delete ''1'' (AList.delete ''0'' (scens cs)))\<rparr>"
proof -
  from assms obtain c0 ce0 cs1 c1 ce1 cs2
    where p0: "pareto_probe solver a basis ''0'' 0 cs = Inr ((c0, ce0), cs1)"
      and p1: "pareto_probe solver a basis ''1'' 1 cs1 = Inr ((c1, ce1), cs2)"
      and res: "cs' = cs2\<lparr>scens := map (\<lambda>(name, sc). (name, set_norm_factors [c0, c1] [ce0, ce1] sc))
                                       (scens cs2)\<rparr>"
    by (auto simp: improve_pareto_norm_factors_def split: sum.splits prod.splits)
  from pareto_probe_Inr [OF p0] pareto_probe_Inr [OF p1] res show ?thesis by auto
qed

lemma set_norm_factors_params:
  "params (set_norm_factors nC nCE sc) ''k_PTO_C_'' = Some (np_div 1000 (mean nC))"
  "params (set_norm_factors nC nCE sc) ''k_PTO_CE_'' = Some (np_div 1000 (mean nCE))"
  by (simp_all add: set_norm_factors_def)

lemma improve_pareto_norm_factors_run:
  assumes "map_of (scens cs) basis = Some b" and "basis \<noteq> ''0''"
    and "solver (probe_scen b ''0'' 0) = (st0, r0)" and "st0 = OPTIMAL \<or> st0 = SUBOPTIMAL"
    and "r0 ''C_TOT_'' = Some c0" and "r0 ''CE_TOT_'' = Some e0"
    and "solver (probe_scen b ''1'' 1) = (st1, r1)" and "st1 = OPTIMAL \<or> st1 = SUBOPTIMAL"
    and "r1 ''C_TOT_'' = Some c1" and "r1 ''CE_TOT_'' = Some e1"
  shows "improve_pareto_norm_factors solver a basis cs
      = Inr (cs\<lparr>scens := map (\<lambda>(name, sc). (name, set_norm_factors [c0 * a, c1 * a] [e0, e1] sc))
                             (AList.delete ''1'' (AList.delete ''0'' (scens cs)))\<rparr>)"
proof -
  define cs1 where "cs1 = cs\<lparr>scens := AList.delete ''0'' (scens cs)\<rparr>"
  define cs2 where "cs2 = cs1\<lparr>scens := AList.delete ''1'' (scens cs1)\<rparr>"
  have p0: "pareto_probe solver a basis ''0'' 0 cs = Inr ((c0 * a, e0), cs1)"
    unfolding cs1_def
    by (rule pareto_probe_ok [of cs basis b solver "''0''" 0 st0 r0 c0 e0 a, OF assms(1,3,4,5,6)])
  have base1: "map_of (scens cs1) basis = Some b"
    using assms(1,2) by (simp add: cs1_def delete_conv')
  have p1: "pareto_probe solver a basis ''1'' 1 cs1 = Inr ((c1 * a, e1), cs2)"
    unfolding cs2_def
    by (rule pareto_probe_ok [of cs1 basis b solver "''1''" 1 st1 r1 c1 e1 a, OF base1 assms(7,8,9,10)])
  have "improve_pareto_norm_factors solver a basis cs
      = Inr (cs2\<lparr>scens := map (\<lambda>(name, sc). (name, set_norm_factors [c0 * a, c1 * a] [e0, e1] sc))
                              (scens cs2)\<rparr>)"
    by (simp add: improve_pareto_norm_factors_def p0 p1)
  then show ?thesis by (simp add: cs2_def cs1_def)
qed

text \<open>
  Claim C6. When the base exists (under an id other than the first probe's) and the
  solver finds the probe at weighting 0 with total cost \<open>c0\<close> and total emissions \<open>e0\<close>
  and the probe at weighting 1 with \<open>c1\<close> and \<open>e1\<close>, the normalization returns, and every
  scenario of the registry then has the cost factor \<open>1000 / mean (c0 * a, c1 * a)\<close> and
  the emission factor \<open>1000 / mean (e0, e1)\<close> as parameters, \<open>a\<close> being the adjustment
  factor; where a mean is not zero the quotient is the real number \<open>1000 / ((x + y) / 2)\<close>.
\<close>

theorem improve_pareto_norm_factors_values:
  assumes "map_of (scens cs) basis = Some b" and "basis \<noteq> ''0''"
    and "solver (probe_scen b ''0'' 0) = (st0, r0)" and "st0 = OPTIMAL \<or> st0 = SUBOPTIMAL"
    and "r0 ''C_TOT_'' = Some c0" and "r0 ''CE_TOT_'' = Some e0"
    and "solver (probe_scen b ''1'' 1) = (st1, r1)" and "st1 = OPTIMAL \<or> st1 = SUBOPTIMAL"
    and "r1 ''C_TOT_'' = Some c1" and "r1 ''CE_TOT_'' = Some e1"
  shows "\<exists>cs'. improve_pareto_norm_factors solver a basis cs = Inr cs'
           \<and> (\<forall>sc \<in> set (scens_list cs').
                  params sc ''k_PTO_C_'' = Some (np_div 1000 (mean [c0 * a, c1 * a]))
                \<and> params sc ''k_PTO_CE_'' = Some (np_div 1000 (mean [e0, e1])))
           \<and> (c0 * a + c1 * a \<noteq> 0 \<longrightarrow>
                np_div 1000 (mean [c0 * a, c1 * a]) = Num (1000 / ((c0 * a + c1 * a) / 2)))
           \<and> (e0 + e1 \<noteq> 0 \<longrightarrow> np_div 1000 (mean [e0, e1]) = Num (1000 / ((e0 + e1) / 2)))"
proof -
  define cs' where
    "cs' = cs\<lparr>scens := map (\<lambda>(name, sc). (name, set_norm_factors [c0 * a, c1 * a] [e0, e1] sc))
                            (AList.delete ''1'' (AList.delete ''0'' (scens cs)))\<rparr>"
  have run: "improve_pareto_norm_factors solver a basis cs = Inr cs'"
    unfolding cs'_def
    by (rule improve_pareto_norm_factors_run
              [of cs basis b solver st0 r0 c0 e0 st1 r1 c1 e1 a, OF assms])
  have all: "\<forall>sc \<in> set (scens_list cs').
               params sc ''k_PTO_C_'' = Some (np_div 1000 (mean [c0 * a, c1 * a]))
             \<and> params sc ''k_PTO_CE_'' = Some (np_div 1000 (mean [e0, e1]))"
    by (auto simp: cs'_def scens_list_def scens_dic_def set_norm_factors_params)
  have "c0 * a + c1 * a \<noteq> 0 \<longrightarrow>
          np_div 1000 (mean [c0 * a, c1 * a]) = Num (1000 / ((c0 * a + c1 * a) / 2))"
    by (simp add: np_div_def mean_def)
  moreover have "e0 + e1 \<noteq> 0 \<longrightarrow> np_div 1000 (mean [e0, e1]) = Num (1000 / ((e0 + e1) / 2))"
    by (simp add: np_div_def mean_def)
  ultimately show ?thesis using run all by blast
qed

theorem improve_pareto_norm_factors_values_witness:
  "\<exists>cs'. improve_pareto_norm_factors ex_solver 1 ''REF'' ex_cs = Inr cs'
         \<and> (\<forall>sc \<in> set (scens_list cs').
                params sc ''k_PTO_C_'' = Some (Num 5) \<and> params sc ''k_PTO_CE_'' = Some (Num 25))
         \<and> scens_ids cs' = [''REF'']"
proof -
  have base: "map_of (scens ex_cs) ''REF'' = Some ex_ref" by (simp add: scens_ex_cs)
  have s0: "ex_solver (probe_scen ex_ref ''0'' 0) = (OPTIMAL, [''C_TOT_'' \<mapsto> 100, ''CE_TOT_'' \<mapsto> 20])"
    by (simp add: ex_solver_def probe_scen_def)
  have s1: "ex_solver (probe_scen ex_ref ''1'' 1) = (OPTIMAL, [''C_TOT_'' \<mapsto> 300, ''CE_TOT_'' \<mapsto> 60])"
    by (simp add: ex_solver_def probe_scen_def)
  from improve_pareto_norm_factors_values
         [of ex_cs "''REF''" ex_ref ex_solver OPTIMAL "[''C_TOT_'' \<mapsto> 100, ''CE_TOT_'' \<mapsto> 20]"
             100 20 OPTIMAL "[''C_TOT_'' \<mapsto> 300, ''CE_TOT_'' \<mapsto> 60]" 300 60 1]
       base s0 s1
  obtain cs' where run: "improve_pareto_norm_factors ex_solver 1 ''REF'' ex_cs = Inr cs'"
    and all: "\<forall>sc \<in> set (scens_list cs').
                params sc ''k_PTO_C_'' = Some (np_div 1000 (mean [100 * 1, 300 * 1]))
              \<and> params sc ''k_PTO_CE_'' = Some (np_div 1000 (mean [20, 60]))"
    by auto
  have "np_div 1000 (mean [100 * 1, 300 * 1]) = Num 5" and "np_div 1000 (mean [20, 60]) = Num 25"
    by (simp_all add: np_div_def mean_def)
  with all have vals: "\<forall>sc \<in> set (scens_list cs').
      params sc ''k_PTO_C_'' = Some (Num 5) \<and> params sc ''k_PTO_CE_'' = Some (Num 25)"
    by simp
  from improve_pareto_norm_factors_Inr [OF run] have "scens_ids cs' = [''REF'']"
    by (auto simp: scens_ids_def scens_dic_def scens_ex_cs)
  with run vals show ?thesis by blast
qed

section \<open>The registry after the Pareto normalization\<close>

lemma scens_ex_zero:
  "scens ex_zero =
     [(''REF'', ex_ref),
      (''0'', (special_copy ex_ref)\<lparr>scen_id := ''0'', scen_name := ''mine'', scen_doc := []\<rparr>)]"
  by (simp add: ex_zero_def add_scen_def scens_ex_cs registry_defs Let_def)

lemma ex_solver_probes:
  "ex_solver (probe_scen ex_ref ''0'' 0) = (OPTIMAL, [''C_TOT_'' \<mapsto> 100, ''CE_TOT_'' \<mapsto> 20])"
  "ex_solver (probe_scen ex_ref ''1'' 1) = (OPTIMAL, [''C_TOT_'' \<mapsto> 300, ''CE_TOT_'' \<mapsto> 60])"
  by (simp_all add: ex_solver_def probe_scen_def)

lemma ex_improve_run:
  assumes "map_of (scens cs) ''REF'' = Some ex_ref"
  shows "improve_pareto_norm_factors ex_solver 1 ''REF'' cs
      = Inr (cs\<lparr>scens := map (\<lambda>(name, sc). (name, set_norm_factors [100 * 1, 300 * 1] [20, 60] sc))
                             (AList.delete ''1'' (AList.delete ''0'' (scens cs)))\<rparr>)"
  by (rule improve_pareto_norm_factors_run
            [of cs "''REF''" ex_ref ex_solver OPTIMAL "[''C_TOT_'' \<mapsto> 100, ''CE_TOT_'' \<mapsto> 20]"
                100 20 OPTIMAL "[''C_TOT_'' \<mapsto> 300, ''CE_TOT_'' \<mapsto> 60]" 300 60 1])
     (simp_all add: assms ex_solver_probes)

text \<open>
  What a returning normalization leaves of the registry: the ids it held before other
  than the probe ids \<open>0\<close> and \<open>1\<close>, in their order, so all ids of before when neither of
  the two was registered; and every scenario that is left has both normalization
  factors as parameters, the same for all.
\<close>

lemma improve_pareto_norm_factors_ids:
  assumes "improve_pareto_norm_factors solver a basis cs = Inr cs'"
  shows "scens_ids cs' = filter (\<lambda>i. i \<noteq> ''0'' \<and> i \<noteq> ''1'') (scens_ids cs)
       \<and> ''0'' \<notin> set (scens_ids cs') \<and> ''1'' \<notin> set (scens_ids cs')
       \<and> (''0'' \<notin> set (scens_ids cs) \<and> ''1'' \<notin> set (scens_ids cs) \<longrightarrow> scens_ids cs' = scens_ids cs)
       \<and> (\<exists>kc kce. \<forall>sc \<in> set (scens_list cs').
              params sc ''k_PTO_C_'' = Some kc \<and> params sc ''k_PTO_CE_'' = Some kce)"
proof -
  from improve_pareto_norm_factors_Inr [OF assms] obtain nC nCE
    where cs': "cs' = cs\<lparr>scens := map (\<lambda>(name, sc). (name, set_norm_factors nC nCE sc))
                                       (AList.delete ''1'' (AList.delete ''0'' (scens cs)))\<rparr>"
    by blast
  have ids: "scens_ids cs' = filter (\<lambda>i. i \<noteq> ''0'' \<and> i \<noteq> ''1'') (scens_ids cs)"
    by (simp add: cs' scens_ids_def scens_dic_def keys_delete case_prod_unfold comp_def conj_commute)
  have same: "''0'' \<notin> set (scens_ids cs) \<and> ''1'' \<notin> set (scens_ids cs) \<longrightarrow> scens_ids cs' = scens_ids cs"
    unfolding ids by (auto intro: filter_True)
  have factors: "\<forall>sc \<in> set (scens_list cs').
      params sc ''k_PTO_C_'' = Some (np_div 1000 (mean nC))
      \<and> params sc ''k_PTO_CE_'' = Some (np_div 1000 (mean nCE))"
    by (auto simp: cs' scens_list_def scens_dic_def set_norm_factors_params)
  from ids same factors show ?thesis by auto
qed

section \<open>Results and solve status of the registered scenarios\<close>

lemma solved_iff_optimal_unsolved:
  "res sc = None \<Longrightarrow> solve_status sc = None \<Longrightarrow> solved_iff_optimal sc"
  by (simp add: solved_iff_optimal_def)

lemma solved_iff_optimal_cong:
  "res sc' = res sc \<Longrightarrow> solve_status sc' = solve_status sc
   \<Longrightarrow> solved_iff_optimal sc' = solved_iff_optimal sc"
  by (simp add: solved_iff_optimal_def)

lemma solved_iff_optimal_optimize: "solved_iff_optimal (optimize solver sc)"
  by (auto simp: solved_iff_optimal_def optimize_def split: prod.splits)

lemma solved_iff_optimal_set_norm_factors:
  "solved_iff_optimal (set_norm_factors nC nCE sc) = solved_iff_optimal sc"
  by (simp add: solved_iff_optimal_def set_norm_factors_def)

lemma set_setattr_scens: "set (setattr_scens k sc reg) \<subseteq> insert (k, sc) (set reg)"
  unfolding setattr_scens_def by (induction reg) auto

lemma set_delete_subset: "set (AList.delete k reg) \<subseteq> set reg"
  by (induction reg) auto

lemma ok_setattr_scens:
  assumes "\<forall>sc \<in> snd ` set reg. solved_iff_optimal sc" and "solved_iff_optimal sc"
  shows "\<forall>sc' \<in> snd ` set (setattr_scens k sc reg). solved_iff_optimal sc'"
  using assms set_setattr_scens [of k sc reg] by fastforce

lemma ok_delete:
  assumes "\<forall>sc \<in> snd ` set reg. solved_iff_optimal sc"
  shows "\<forall>sc' \<in> snd ` set (AList.delete k reg). solved_iff_optimal sc'"
  using assms set_delete_subset [of k reg] by fastforce

lemma ok_add_scen:
  assumes "\<forall>sc \<in> snd ` set (scens cs). solved_iff_optimal sc"
    and "add_scen id0 name doc based_on based_on_last cs = Inr (sc, cs')"
  shows "(\<forall>sc' \<in> snd ` set (scens cs'). solved_iff_optimal sc')
         \<and> res sc = None \<and> solve_status sc = None"
proof -
  from assms(2) obtain k where cs': "cs' = cs\<lparr>scens := setattr_scens k sc (scens cs)\<rparr>"
    and unsolved: "res sc = None \<and> solve_status sc = None"
    by (auto simp: add_scen_def Let_def Scenario_def special_copy_def
          split: if_splits option.splits sum.splits)
  from unsolved have "solved_iff_optimal sc" by (simp add: solved_iff_optimal_unsolved)
  from ok_setattr_scens [OF assms(1) this] unsolved show ?thesis by (simp add: cs')
qed

lemma ok_sweep_loop:
  assumes "\<forall>sc \<in> snd ` set (scens cs). solved_iff_optimal sc"
  shows "\<forall>sc \<in> snd ` set (scens (state_after (sweep_loop str_of based_on df cs))).
           solved_iff_optimal sc"
  using assms
proof (induction df arbitrary: cs)
  case Nil
  then show ?case by (simp add: state_after_def)
next
  case (Cons row df)
  obtain nm ser where row: "row = (nm, ser)" by (cases row)
  define ident where "ident = ''sc'' @ string_of_nat (length (scens_dic cs))"
  show ?case
  proof (cases "add_scen (Some ident) nm (long_doc str_of ser) (Some based_on) False cs")
    case (Inl err)
    then obtain e where "err = (e, cs)"
      by (auto simp: add_scen_based_on split: option.splits)
    with Inl Cons.prems show ?thesis
      by (simp add: row ident_def state_after_def)
  next
    case (Inr added)
    obtain sc cs1 where added: "added = (sc, cs1)" by (cases added)
    from ok_add_scen [OF Cons.prems Inr [unfolded added]]
    have ok1: "\<forall>sc' \<in> snd ` set (scens cs1). solved_iff_optimal sc'"
      and unsolved: "res sc = None" "solve_status sc = None" by auto
    define sc1 where "sc1 = update_params sc ''timelog_params_'' (Num 0)"
    have unsolved1: "res sc1 = None" "solve_status sc1 = None"
      using unsolved by (simp_all add: sc1_def update_params_def)
    show ?thesis
    proof (cases "apply_entries sc1 ser")
      case (Inl err)
      obtain e sc' where err: "err = (e, sc')" by (cases err)
      from apply_entries_raise_frame [OF Inl [unfolded err]] unsolved1
      have "solved_iff_optimal sc'" by (simp add: solved_iff_optimal_unsolved)
      from ok_setattr_scens [OF ok1 this, of "scen_id sc"] Inl Inr show ?thesis
        by (simp add: row ident_def added err sc1_def state_after_def)
    next
      case (Inr sc')
      from apply_entries_frame [OF Inr] unsolved1
      have "solved_iff_optimal sc'" by (simp add: solved_iff_optimal_unsolved)
      from ok_setattr_scens [OF ok1 this, of "scen_id sc"]
      have "\<forall>sc'' \<in> snd ` set (scens (cs1\<lparr>scens := setattr_scens (scen_id sc) sc' (scens cs1)\<rparr>)).
              solved_iff_optimal sc''"
        by simp
      from Cons.IH [OF this] Inr \<open>add_scen (Some ident) nm (long_doc str_of ser) (Some based_on) False cs = Inr added\<close>
      show ?thesis
        by (simp add: row ident_def added sc1_def)
    qed
  qed
qed

lemma ok_add_scens:
  assumes "\<forall>sc \<in> snd ` set (scens cs). solved_iff_optimal sc"
  shows "\<forall>sc \<in> snd ` set (scens (state_after
            (add_scens str_of scen_vars0 nParetoPoints del_REF based_on cs))). solved_iff_optimal sc"
proof -
  define sv2 where
    "sv2 = (if nParetoPoints > 0
            then map_option
                   (\<lambda>svs. svs @ [(''k_PTO_alpha_'', ''a'', linspace01 (nat nParetoPoints))])
                   (case scen_vars0 of
                      None \<Rightarrow> (if nParetoPoints > 0 then Some [] else None)
                    | Some svs \<Rightarrow> Some svs)
            else (case scen_vars0 of
                    None \<Rightarrow> (if nParetoPoints > 0 then Some [] else None)
                  | Some svs \<Rightarrow> Some svs))"
  define cs1 where "cs1 = cs\<lparr>scen_vars := sv2\<rparr>"
  have unfold: "add_scens str_of scen_vars0 nParetoPoints del_REF based_on cs =
      (case sv2 of
         None \<Rightarrow> Inl (TypeError, cs1)
       | Some svs \<Rightarrow>
           if svs = [] then Inl (ValueError, cs1)
           else if \<not> list_all (list_all hashable) (value_lists svs) then Inl (TypeError, cs1)
           else if \<not> distinct (names_long svs) then Inl (ValueError, cs1)
           else
             (case sweep_loop str_of based_on (make_scen_df str_of svs)
                     (cs1\<lparr>scen_df := Some (make_scen_df str_of svs)\<rparr>) of
                Inl err \<Rightarrow> Inl err
              | Inr cs3 \<Rightarrow>
                  if del_REF
                  then (case delattr_scens based_on (scens cs3) of
                          Inl e \<Rightarrow> Inl (e, cs3)
                        | Inr reg \<Rightarrow> Inr (cs3\<lparr>scens := reg\<rparr>))
                  else Inr cs3))"
    unfolding add_scens_def Let_def sv2_def cs1_def by (rule refl)
  have ok1: "\<forall>sc \<in> snd ` set (scens cs1). solved_iff_optimal sc"
    using assms by (simp add: cs1_def)
  show ?thesis
  proof (cases sv2)
    case None
    with ok1 show ?thesis by (simp add: unfold state_after_def)
  next
    case (Some svs)
    show ?thesis
    proof (cases "svs = [] \<or> \<not> list_all (list_all hashable) (value_lists svs)
                    \<or> \<not> distinct (names_long svs)")
      case True
      with Some ok1 show ?thesis by (auto simp: unfold state_after_def)
    next
      case False
      define cs2 where "cs2 = cs1\<lparr>scen_df := Some (make_scen_df str_of svs)\<rparr>"
      have "\<forall>sc \<in> snd ` set (scens cs2). solved_iff_optimal sc"
        using ok1 by (simp add: cs2_def)
      note loop = ok_sweep_loop [OF this, of str_of based_on "make_scen_df str_of svs"]
      have run: "add_scens str_of scen_vars0 nParetoPoints del_REF based_on cs =
          (case sweep_loop str_of based_on (make_scen_df str_of svs) cs2 of
             Inl err \<Rightarrow> Inl err
           | Inr cs3 \<Rightarrow>
               if del_REF
               then (case delattr_scens based_on (scens cs3) of
                       Inl e \<Rightarrow> Inl (e, cs3)
                     | Inr reg \<Rightarrow> Inr (cs3\<lparr>scens := reg\<rparr>))
               else Inr cs3)"
        using Some False by (simp add: unfold cs2_def)
      show ?thesis
      proof (cases "sweep_loop str_of based_on (make_scen_df str_of svs) cs2")
        case (Inl err)
        then have "add_scens str_of scen_vars0 nParetoPoints del_REF based_on cs = Inl err"
          unfolding run by simp
        with loop Inl show ?thesis by simp
      next
        case (Inr cs3)
        with loop have ok3: "\<forall>sc \<in> snd ` set (scens cs3). solved_iff_optimal sc"
          by (simp add: state_after_def)
        have "scens (state_after (add_scens str_of scen_vars0 nParetoPoints del_REF based_on cs))
                = scens cs3
              \<or> scens (state_after (add_scens str_of scen_vars0 nParetoPoints del_REF based_on cs))
                = AList.delete based_on (scens cs3)"
          unfolding run
          by (auto simp: Inr state_after_def delattr_scens_def split: option.splits)
        with ok3 ok_delete [OF ok3, of based_on] show ?thesis by auto
      qed
    qed
  qed
qed

lemma ok_pareto_probe:
  assumes "\<forall>sc \<in> snd ` set (scens cs). solved_iff_optimal sc"
  shows "(pareto_probe solver a basis ident i cs = Inl (e, cs')
            \<longrightarrow> (\<forall>sc \<in> snd ` set (scens cs'). solved_iff_optimal sc))
       \<and> (pareto_probe solver a basis ident i cs = Inr (x, cs')
            \<longrightarrow> (\<forall>sc \<in> snd ` set (scens cs'). solved_iff_optimal sc))"
proof (cases "map_of (scens cs) basis")
  case None
  with assms show ?thesis
    by (auto simp: pareto_probe_def add_scen_based_on)
next
  case (Some b)
  define sc0 where
    "sc0 = (special_copy b)\<lparr>scen_id := ident, scen_name := ''pareto_improver'', scen_doc := []\<rparr>"
  define sc where
    "sc = optimize solver (sc0\<lparr>params := (params sc0)(''k_PTO_alpha_'' \<mapsto> Num i)\<rparr>)"
  define cs2 where "cs2 = cs\<lparr>scens := setattr_scens ident sc (setattr_scens ident sc0 (scens cs))\<rparr>"
  have "solved_iff_optimal sc0"
    by (simp add: sc0_def special_copy_def solved_iff_optimal_unsolved)
  from ok_setattr_scens [OF assms this]
  have "\<forall>sc' \<in> snd ` set (setattr_scens ident sc0 (scens cs)). solved_iff_optimal sc'" .
  from ok_setattr_scens [OF this solved_iff_optimal_optimize]
  have ok2: "\<forall>sc' \<in> snd ` set (scens cs2). solved_iff_optimal sc'"
    by (simp add: cs2_def sc_def)
  have unfold: "pareto_probe solver a basis ident i cs =
      (case res sc of
         None \<Rightarrow> Inl (AttributeError ''res'', cs2)
       | Some r \<Rightarrow>
           (case r ''C_TOT_'' of
              None \<Rightarrow> Inl (AttributeError ''C_TOT_'', cs2)
            | Some c \<Rightarrow>
                (case r ''CE_TOT_'' of
                   None \<Rightarrow> Inl (AttributeError ''CE_TOT_'', cs2)
                 | Some ce \<Rightarrow>
                     (case delattr_scens ident (scens cs2) of
                        Inl e \<Rightarrow> Inl (e, cs2)
                      | Inr reg \<Rightarrow> Inr ((c * a, ce), cs2\<lparr>scens := reg\<rparr>)))))"
    using Some
    by (simp add: pareto_probe_def add_scen_based_on Let_def sc_def sc0_def cs2_def
          split: option.splits sum.splits)
  have "\<forall>sc \<in> snd ` set (scens cs'). solved_iff_optimal sc"
    if "pareto_probe solver a basis ident i cs = Inl (e, cs')
        \<or> pareto_probe solver a basis ident i cs = Inr (x, cs')"
  proof -
    from that have "cs' = cs2 \<or> cs' = cs2\<lparr>scens := AList.delete ident (scens cs2)\<rparr>"
      unfolding unfold by (auto simp: delattr_scens_def split: option.splits)
    then show ?thesis
      using ok2 ok_delete [OF ok2, of ident] by (elim disjE) simp_all
  qed
  then show ?thesis by blast
qed

lemma ok_improve_pareto_norm_factors:
  assumes "\<forall>sc \<in> snd ` set (scens cs). solved_iff_optimal sc"
  shows "\<forall>sc \<in> snd ` set (scens (state_after
            (improve_pareto_norm_factors solver a basis cs))). solved_iff_optimal sc"
proof (cases "pareto_probe solver a basis ''0'' 0 cs")
  case (Inl err)
  obtain e cs' where err: "err = (e, cs')" by (cases err)
  from ok_pareto_probe [OF assms, of solver a basis "''0''" 0 e cs'] Inl
  show ?thesis by (simp add: improve_pareto_norm_factors_def err state_after_def)
next
  case (Inr r0)
  obtain c0 ce0 cs1 where r0: "r0 = ((c0, ce0), cs1)" by (cases r0) auto
  from ok_pareto_probe [OF assms, of solver a basis "''0''" 0 _ cs1 "(c0, ce0)"] Inr
  have ok1: "\<forall>sc \<in> snd ` set (scens cs1). solved_iff_optimal sc" by (simp add: r0)
  show ?thesis
  proof (cases "pareto_probe solver a basis ''1'' 1 cs1")
    case (Inl err)
    obtain e cs' where err: "err = (e, cs')" by (cases err)
    from ok_pareto_probe [OF ok1, of solver a basis "''1''" 1 e cs'] Inl Inr
    show ?thesis by (simp add: improve_pareto_norm_factors_def err r0 state_after_def)
  next
    case p1: (Inr r1)
    obtain c1 ce1 cs2 where r1: "r1 = ((c1, ce1), cs2)" by (cases r1) auto
    from ok_pareto_probe [OF ok1, of solver a basis "''1''" 1 _ cs2 "(c1, ce1)"] p1
    have ok2: "\<forall>sc \<in> snd ` set (scens cs2). solved_iff_optimal sc" by (simp add: r1)
    have "improve_pareto_norm_factors solver a basis cs
        = Inr (cs2\<lparr>scens := map (\<lambda>(name, sc). (name, set_norm_factors [c0, c1] [ce0, ce1] sc))
                                (scens cs2)\<rparr>)"
      using Inr p1 by (simp add: improve_pareto_norm_factors_def r0 r1)
    with ok2 show ?thesis
      by (auto simp: state_after_def solved_iff_optimal_set_norm_factors)
  qed
qed

lemma ok_optimize_scens:
  assumes "\<forall>sc \<in> snd ` set (scens cs). solved_iff_optimal sc"
  shows "\<forall>sc \<in> snd ` set (scens (optimize_scens solver sel cs)). solved_iff_optimal sc"
  using assms by (auto simp: optimize_scens_def solved_iff_optimal_optimize)

lemma ok_set_params:
  assumes "\<forall>sc \<in> snd ` set (scens cs). solved_iff_optimal sc"
  shows "\<forall>sc \<in> snd ` set (scens (set_params params_func sel cs)). solved_iff_optimal sc"
proof -
  have "solved_iff_optimal (sc\<lparr>params := p, vars := v\<rparr>) = solved_iff_optimal sc" for sc p v
    by (simp add: solved_iff_optimal_def)
  with assms show ?thesis by (auto simp: set_params_def split: if_splits)
qed

lemma ok_fold_setattr:
  assumes "\<forall>sc \<in> snd ` set other. solved_iff_optimal sc"
    and "\<forall>sc \<in> snd ` set reg. solved_iff_optimal sc"
  shows "\<forall>sc \<in> snd ` set (fold (\<lambda>(name, sc) reg. if name \<in> S then setattr_scens name sc reg
                                                       else reg) other reg).
           solved_iff_optimal sc"
  using assms
proof (induction other arbitrary: reg)
  case Nil
  then show ?case by simp
next
  case (Cons entry other)
  obtain name sc where entry: "entry = (name, sc)" by (cases entry)
  from Cons.prems(1) have sc: "solved_iff_optimal sc"
    and rest: "\<forall>sc \<in> snd ` set other. solved_iff_optimal sc" by (auto simp: entry)
  from ok_setattr_scens [OF Cons.prems(2) sc, of name] Cons.prems(2)
  have "\<forall>sc' \<in> snd ` set (if name \<in> S then setattr_scens name sc reg else reg).
          solved_iff_optimal sc'" by simp
  from Cons.IH [OF rest this] show ?case by (simp add: entry)
qed

lemma ok_import_scens:
  assumes "\<forall>sc \<in> snd ` set (scens other_cs). solved_iff_optimal sc"
    and "\<forall>sc \<in> snd ` set (scens cs). solved_iff_optimal sc"
  shows "\<forall>sc \<in> snd ` set (scens (import_scens other_cs exclude incl cs)). solved_iff_optimal sc"
  using ok_fold_setattr [OF assms] by (simp add: import_scens_def Let_def)

lemma reachable_solved_iff_optimal:
  "reachable cs \<Longrightarrow> \<forall>sc \<in> snd ` set (scens cs). solved_iff_optimal sc"
proof (induction rule: reachable.induct)
  case (reach_init ov)
  show ?case by (simp add: CaseStudy_def)
next
  case (reach_add_scen cs id0 name doc based_on based_on_last sc cs')
  from ok_add_scen [OF reach_add_scen.IH reach_add_scen.hyps(2)] show ?case by simp
next
  case (reach_add_scens cs str_of scen_vars0 nParetoPoints del_REF based_on cs')
  from ok_add_scens [OF reach_add_scens.IH, of str_of scen_vars0 nParetoPoints del_REF based_on]
    reach_add_scens.hyps(2)
  show ?case by (simp add: state_after_def)
next
  case (reach_add_scens_raise cs str_of scen_vars0 nParetoPoints del_REF based_on e cs')
  from ok_add_scens [OF reach_add_scens_raise.IH, of str_of scen_vars0 nParetoPoints del_REF based_on]
    reach_add_scens_raise.hyps(2)
  show ?case by (simp add: state_after_def)
next
  case (reach_set_params cs params_func sel)
  then show ?case by (intro ok_set_params)
next
  case (reach_optimize cs solver sel)
  then show ?case by (intro ok_optimize_scens)
next
  case (reach_improve cs solver adjust_factor basis_scen_id cs')
  from ok_improve_pareto_norm_factors [OF reach_improve.IH, of solver adjust_factor basis_scen_id]
    reach_improve.hyps(2)
  show ?case by (simp add: state_after_def)
next
  case (reach_improve_raise cs solver adjust_factor basis_scen_id e cs')
  from ok_improve_pareto_norm_factors [OF reach_improve_raise.IH, of solver adjust_factor basis_scen_id]
    reach_improve_raise.hyps(2)
  show ?case by (simp add: state_after_def)
next
  case (reach_import cs other_cs exclude incl)
  then show ?case by (intro ok_import_scens)
qed

lemma reachable_ex_cs: "reachable ex_cs"
proof -
  have "add_scen (Some ''REF'') ''REF'' ''Reference scenario'' None False
          (CaseStudy [''C_TOT_'', ''CE_TOT_''])
        = Inr (Scenario ''REF'' ''REF'' ''Reference scenario'',
               (CaseStudy [''C_TOT_'', ''CE_TOT_''])
                 \<lparr>scens := [(''REF'', Scenario ''REF'' ''REF'' ''Reference scenario'')]\<rparr>)"
    by (simp add: add_scen_def CaseStudy_def Let_def registry_defs)
  from reach_add_scen [OF reach_init this]
  have "reachable (set_params (\<lambda>sc. (params ex_ref, vars ex_ref)) None
          ((CaseStudy [''C_TOT_'', ''CE_TOT_''])
             \<lparr>scens := [(''REF'', Scenario ''REF'' ''REF'' ''Reference scenario'')]\<rparr>))"
    by (rule reach_set_params)
  moreover have "set_params (\<lambda>sc. (params ex_ref, vars ex_ref)) None
          ((CaseStudy [''C_TOT_'', ''CE_TOT_''])
             \<lparr>scens := [(''REF'', Scenario ''REF'' ''REF'' ''Reference scenario'')]\<rparr>) = ex_cs"
    by (simp add: set_params_def ex_cs_def ex_ref_def Scenario_def CaseStudy_def)
  ultimately show ?thesis by simp
qed

lemma reachable_ex_mixed: "reachable ex_mixed"
proof -
  have "add_scen (Some ''sc1'') ''first'' [] (Some ''REF'') False ex_cs
        = Inr ((special_copy ex_ref)\<lparr>scen_id := ''sc1'', scen_name := ''first'', scen_doc := []\<rparr>,
               ex_two)"
    by (simp add: ex_two_def add_scen_based_on scens_ex_cs)
  from reach_add_scen [OF reachable_ex_cs this] have "reachable ex_two" .
  then show ?thesis unfolding ex_mixed_def by (rule reach_optimize)
qed

text \<open>
  Claim C5. In a case study built by the operations, a registered scenario is in the
  view of the valid scenarios exactly when it has results, it has results exactly when
  its last solve ended \<open>OPTIMAL\<close> or \<open>SUBOPTIMAL\<close>, and the view holds only entries of the
  registry.
\<close>

theorem valid_scens_solved:
  assumes "reachable cs" and "(name, sc) \<in> set (scens_dic cs)"
  shows "((name, sc) \<in> set (valid_scens cs) \<longleftrightarrow> res sc \<noteq> None)
       \<and> (res sc \<noteq> None \<longleftrightarrow> solve_status sc = Some OPTIMAL \<or> solve_status sc = Some SUBOPTIMAL)
       \<and> set (valid_scens cs) \<subseteq> set (scens_dic cs)"
proof -
  from assms(2) have "sc \<in> snd ` set (scens cs)" by (force simp: scens_dic_def)
  with reachable_solved_iff_optimal [OF assms(1)] have "solved_iff_optimal sc" by blast
  then have "res sc \<noteq> None \<longleftrightarrow> solve_status sc = Some OPTIMAL \<or> solve_status sc = Some SUBOPTIMAL"
    by (simp add: solved_iff_optimal_def)
  moreover from assms(2) have "(name, sc) \<in> set (valid_scens cs) \<longleftrightarrow> res sc \<noteq> None"
    by (auto simp: valid_scens_def)
  moreover have "set (valid_scens cs) \<subseteq> set (scens_dic cs)"
    by (auto simp: valid_scens_def)
  ultimately show ?thesis by blast
qed

theorem valid_scens_solved_witness:
  "reachable ex_mixed
   \<and> scens_ids ex_mixed = [''REF'', ''sc1'']
   \<and> map fst (valid_scens ex_mixed) = [''REF'']
   \<and> map (\<lambda>(name, sc). solve_status sc) (scens_dic ex_mixed) = [Some OPTIMAL, Some INFEASIBLE]
   \<and> (\<exists>sc. (''REF'', sc) \<in> set (scens_dic ex_mixed)
           \<and> (''REF'', sc) \<in> set (valid_scens ex_mixed) \<and> res sc \<noteq> None
           \<and> solve_status sc = Some OPTIMAL
           \<and> set (valid_scens ex_mixed) \<subseteq> set (scens_dic ex_mixed))"
proof -
  define sc where "sc = optimize ex_solver_ref_only ex_ref"
  have mem: "(''REF'', sc) \<in> set (scens_dic ex_mixed)"
    by (simp add: scens_dic_def scens_ex_mixed sc_def)
  have solved: "res sc \<noteq> None"
    by (simp add: sc_def optimize_def ex_solver_ref_only_def ex_ref_def Scenario_def)
  have status: "solve_status sc = Some OPTIMAL"
    by (simp add: sc_def optimize_def ex_solver_ref_only_def ex_ref_def Scenario_def)
  have ids: "scens_ids ex_mixed = [''REF'', ''sc1'']"
    by (simp add: scens_ids_def scens_dic_def scens_ex_mixed)
  have valid: "map fst (valid_scens ex_mixed) = [''REF'']"
    by (simp add: valid_scens_def scens_dic_def scens_ex_mixed optimize_def ex_solver_ref_only_def
          special_copy_def ex_ref_def Scenario_def)
  have statuses: "map (\<lambda>(name, sc). solve_status sc) (scens_dic ex_mixed)
                    = [Some OPTIMAL, Some INFEASIBLE]"
    by (simp add: scens_dic_def scens_ex_mixed optimize_def ex_solver_ref_only_def
          special_copy_def ex_ref_def Scenario_def)
  from valid_scens_solved [OF reachable_ex_mixed mem] solved status
  have "(''REF'', sc) \<in> set (valid_scens ex_mixed)
        \<and> set (valid_scens ex_mixed) \<subseteq> set (scens_dic ex_mixed)" by blast
  with reachable_ex_mixed mem solved status ids valid statuses show ?thesis by blast
qed

section \<open>A probe id that is taken\<close>

lemma reachable_ex_zero: "reachable ex_zero"
proof -
  have "add_scen (Some ''0'') ''mine'' [] (Some ''REF'') False ex_cs
        = Inr ((special_copy ex_ref)\<lparr>scen_id := ''0'', scen_name := ''mine'', scen_doc := []\<rparr>,
               ex_zero)"
    by (simp add: ex_zero_def add_scen_based_on scens_ex_cs)
  from reach_add_scen [OF reachable_ex_cs this] show ?thesis .
qed

lemma reachable_ex_one: "reachable ex_one"
proof -
  have "add_scen (Some ''1'') ''REF'' ''Reference scenario'' None False
          (CaseStudy [''C_TOT_'', ''CE_TOT_''])
        = Inr (Scenario ''1'' ''REF'' ''Reference scenario'',
               (CaseStudy [''C_TOT_'', ''CE_TOT_''])
                 \<lparr>scens := [(''1'', Scenario ''1'' ''REF'' ''Reference scenario'')]\<rparr>)"
    by (simp add: add_scen_def CaseStudy_def Let_def registry_defs)
  from reach_add_scen [OF reach_init this]
  have "reachable (set_params (\<lambda>sc. (params ex_ref, vars ex_ref)) None
          ((CaseStudy [''C_TOT_'', ''CE_TOT_''])
             \<lparr>scens := [(''1'', Scenario ''1'' ''REF'' ''Reference scenario'')]\<rparr>))"
    by (rule reach_set_params)
  moreover have "set_params (\<lambda>sc. (params ex_ref, vars ex_ref)) None
          ((CaseStudy [''C_TOT_'', ''CE_TOT_''])
             \<lparr>scens := [(''1'', Scenario ''1'' ''REF'' ''Reference scenario'')]\<rparr>) = ex_one"
    by (simp add: set_params_def ex_one_def ex_ref_def Scenario_def CaseStudy_def)
  ultimately show ?thesis by simp
qed

lemma scens_ex_one: "scens ex_one = [(''1'', ex_ref\<lparr>scen_id := ''1''\<rparr>)]"
  by (simp add: ex_one_def CaseStudy_def)

text \<open>
  Claim C7 fails on the code where a probe id is taken. The probes are added under the
  fixed ids \<open>0\<close> and \<open>1\<close> and deleted under them. The case study \<open>ex_zero\<close> holds the ids
  \<open>REF\<close> and \<open>0\<close>, the second registered by the user: the normalization on the base \<open>REF\<close>
  returns, and the registry then holds the id \<open>REF\<close> alone, the scenario of the user
  having been replaced by the first probe and deleted with it. The case study \<open>ex_one\<close>
  holds its base under the id \<open>1\<close>: the normalization on that base returns with an empty
  registry, the base having been replaced by the second probe and deleted with it.
\<close>

theorem improve_pareto_norm_factors_id_collision:
  "reachable ex_zero
   \<and> scens_ids ex_zero = [''REF'', ''0'']
   \<and> \<not> isl (improve_pareto_norm_factors ex_solver 1 ''REF'' ex_zero)
   \<and> scens_ids (state_after (improve_pareto_norm_factors ex_solver 1 ''REF'' ex_zero)) = [''REF'']
   \<and> reachable ex_one
   \<and> scens_ids ex_one = [''1'']
   \<and> \<not> isl (improve_pareto_norm_factors ex_solver 1 ''1'' ex_one)
   \<and> scens_ids (state_after (improve_pareto_norm_factors ex_solver 1 ''1'' ex_one)) = []"
proof -
  have base: "map_of (scens ex_zero) ''REF'' = Some ex_ref" by (simp add: scens_ex_zero)
  have zero: "\<not> isl (improve_pareto_norm_factors ex_solver 1 ''REF'' ex_zero)
      \<and> scens_ids ex_zero = [''REF'', ''0'']
      \<and> scens_ids (state_after (improve_pareto_norm_factors ex_solver 1 ''REF'' ex_zero)) = [''REF'']"
    by (simp add: ex_improve_run [OF base] state_after_def scens_ids_def scens_dic_def scens_ex_zero)
  have ids_one: "scens_ids ex_one = [''1'']"
    by (simp add: scens_ids_def scens_dic_def scens_ex_one)
  have run_one: "\<not> isl (improve_pareto_norm_factors ex_solver 1 ''1'' ex_one)"
    unfolding ex_one_def by code_simp
  have after_one: "scens_ids (state_after (improve_pareto_norm_factors ex_solver 1 ''1'' ex_one)) = []"
    unfolding ex_one_def by code_simp
  from zero ids_one run_one after_one reachable_ex_zero reachable_ex_one show ?thesis by blast
qed

section \<open>The ids of a sweep\<close>

lemma string_of_nat_nonempty: "string_of_nat n \<noteq> []"
  by (subst string_of_nat.simps) simp

lemma digit_char_inj:
  assumes "a < 10" and "b < 10" and "char_of (48 + a) = (char_of (48 + b) :: char)"
  shows "a = (b::nat)"
proof -
  from assms(3) have "(48 + a) mod 256 = (48 + b) mod 256"
    by (simp add: char_of_eq_iff take_bit_eq_mod)
  with assms(1,2) show ?thesis by simp
qed

lemma string_of_nat_inj: "string_of_nat m = string_of_nat n \<Longrightarrow> m = n"
proof (induction m arbitrary: n rule: string_of_nat.induct)
  case (1 m)
  show ?case
  proof (cases "m < 10")
    case small_m: True
    show ?thesis
    proof (cases "n < 10")
      case True
      with small_m "1.prems" show ?thesis
        by (simp add: string_of_nat.simps [of m] string_of_nat.simps [of n] digit_char_inj)
    next
      case False
      with small_m "1.prems" string_of_nat_nonempty [of "n div 10"] show ?thesis
        by (simp add: string_of_nat.simps [of m] string_of_nat.simps [of n] Cons_eq_append_conv)
    qed
  next
    case big_m: False
    show ?thesis
    proof (cases "n < 10")
      case True
      with big_m "1.prems" string_of_nat_nonempty [of "m div 10"] show ?thesis
        by (simp add: string_of_nat.simps [of m] string_of_nat.simps [of n] append_eq_Cons_conv)
    next
      case False
      with big_m "1.prems"
      have pre: "string_of_nat (m div 10) = string_of_nat (n div 10)"
        and last: "char_of (48 + m mod 10) = (char_of (48 + n mod 10) :: char)"
        by (simp_all add: string_of_nat.simps [of m] string_of_nat.simps [of n])
      from "1.IH" [OF big_m pre] have "m div 10 = n div 10" .
      moreover from last have "m mod 10 = n mod 10" by (intro digit_char_inj) simp_all
      ultimately show ?thesis by (metis div_mult_mod_eq)
    qed
  qed
qed

lemma sc_id_inj: "''sc'' @ string_of_nat m = ''sc'' @ string_of_nat n \<longleftrightarrow> m = n"
  by (auto dest: string_of_nat_inj)

lemma sweep_loop_ids:
  assumes "sweep_loop str_of based_on df cs = Inr cs'"
    and "\<forall>j < length df. ''sc'' @ string_of_nat (length (scens cs) + j) \<notin> set (scens_ids cs)"
  shows "scens_ids cs'
         = scens_ids cs @ map (\<lambda>j. ''sc'' @ string_of_nat (length (scens cs) + j)) [0..<length df]"
  using assms
proof (induction df arbitrary: cs)
  case Nil
  then show ?case by simp
next
  case (Cons row df)
  obtain nm ser where row: "row = (nm, ser)" by (cases row)
  define ident where "ident = ''sc'' @ string_of_nat (length (scens_dic cs))"
  have ident_eq: "ident = ''sc'' @ string_of_nat (length (scens cs))"
    by (simp add: ident_def scens_dic_def)
  from Cons.prems(1) obtain b where base: "map_of (scens cs) based_on = Some b"
    by (cases "map_of (scens cs) based_on") (auto simp: row add_scen_based_on)
  define sc where
    "sc = (special_copy b)\<lparr>scen_id := ident, scen_name := nm, scen_doc := long_doc str_of ser\<rparr>"
  define cs1 where "cs1 = cs\<lparr>scens := setattr_scens ident sc (scens cs)\<rparr>"
  have unfold: "sweep_loop str_of based_on (row # df) cs =
      (case apply_entries (update_params sc ''timelog_params_'' (Num 0)) ser of
         Inl (e, sc') \<Rightarrow> Inl (e, cs1\<lparr>scens := setattr_scens ident sc' (scens cs1)\<rparr>)
       | Inr sc' \<Rightarrow>
           sweep_loop str_of based_on df (cs1\<lparr>scens := setattr_scens ident sc' (scens cs1)\<rparr>))"
    unfolding row cs1_def sc_def ident_def
    by (rule sweep_loop_Cons [OF base, unfolded Let_def])
  from Cons.prems(1) obtain sc'
    where rest: "sweep_loop str_of based_on df (cs1\<lparr>scens := setattr_scens ident sc' (scens cs1)\<rparr>)
                   = Inr cs'"
    unfolding unfold by (auto split: sum.splits prod.splits)
  define cs2 where "cs2 = cs1\<lparr>scens := setattr_scens ident sc' (scens cs1)\<rparr>"
  from Cons.prems(2) have fresh: "map_of (scens cs) ident = None"
    by (force simp: ident_eq scens_ids_def scens_dic_def map_of_eq_None_iff)
  have ids1: "map fst (scens cs1) = map fst (scens cs) @ [ident]"
    using fresh by (simp add: cs1_def keys_setattr_absent)
  have "map_of (scens cs1) ident \<noteq> None" by (simp add: cs1_def map_of_setattr_scens)
  then have ids2: "scens_ids cs2 = scens_ids cs @ [ident]"
    by (simp add: cs2_def scens_ids_def scens_dic_def keys_setattr_present ids1)
  then have len2: "length (scens cs2) = Suc (length (scens cs))"
    by (metis length_append_singleton length_map scens_ids_def scens_dic_def)
  have fresh2: "\<forall>j < length df. ''sc'' @ string_of_nat (length (scens cs2) + j) \<notin> set (scens_ids cs2)"
  proof (intro allI impI)
    fix j assume "j < length df"
    with Cons.prems(2) have "''sc'' @ string_of_nat (length (scens cs) + Suc j) \<notin> set (scens_ids cs)"
      by auto
    moreover have "''sc'' @ string_of_nat (length (scens cs) + Suc j) \<noteq> ident"
      unfolding ident_eq sc_id_inj by simp
    ultimately show "''sc'' @ string_of_nat (length (scens cs2) + j) \<notin> set (scens_ids cs2)"
      by (simp add: len2 ids2)
  qed
  from Cons.IH [OF rest [folded cs2_def] fresh2]
  have "scens_ids cs' = (scens_ids cs @ [ident])
          @ map (\<lambda>j. ''sc'' @ string_of_nat (Suc (length (scens cs)) + j)) [0..<length df]"
    by (simp add: ids2 len2)
  also have "\<dots> = scens_ids cs
          @ map (\<lambda>j. ''sc'' @ string_of_nat (length (scens cs) + j)) [0..<length (row # df)]"
    by (simp add: ident_eq map_upt_Suc del: upt_Suc)
  finally show ?case .
qed

lemma length_make_scen_df:
  "length (make_scen_df str_of svs) = prod_list (map length (value_lists svs))"
proof -
  have "foldr (*) ns 1 = prod_list ns" for ns :: "nat list"
    by (induction ns) simp_all
  then show ?thesis by (simp add: make_scen_df_def length_product_lists)
qed

text \<open>
  Where no id collides, a sweep registers every scenario it creates. A sweep that
  returns, on a registry of \<open>m\<close> scenarios that holds none of the ids \<open>sc<m>\<close>, ...,
  \<open>sc<m+N-1>\<close>, with \<open>N\<close> the product of the cardinalities of the value lists, appends
  exactly these \<open>N\<close> ids to the registry, which are distinct and new.
\<close>

lemma add_scens_registers:
  assumes "add_scens str_of (Some svs) 0 False based_on cs = Inr cs'"
    and "N = prod_list (map length (value_lists svs))"
    and "\<forall>j < N. ''sc'' @ string_of_nat (length (scens cs) + j) \<notin> set (scens_ids cs)"
  shows "scens_ids cs'
           = scens_ids cs @ map (\<lambda>j. ''sc'' @ string_of_nat (length (scens cs) + j)) [0..<N]
         \<and> length (scens_ids cs') = length (scens_ids cs) + N
         \<and> distinct (map (\<lambda>j. ''sc'' @ string_of_nat (length (scens cs) + j)) [0..<N])"
proof -
  from assms(1) have axes: "svs \<noteq> []" "distinct (names_long svs)"
    "list_all (list_all hashable) (value_lists svs)"
    by (auto simp: add_scens_def Let_def split: if_splits)
  define cs2 where
    "cs2 = cs\<lparr>scen_vars := Some svs, scen_df := Some (make_scen_df str_of svs)\<rparr>"
  from assms(1) have loop: "sweep_loop str_of based_on (make_scen_df str_of svs) cs2 = Inr cs'"
    by (simp add: add_scens_axes [OF axes] cs2_def split: sum.splits)
  have same: "scens cs2 = scens cs" "scens_ids cs2 = scens_ids cs"
    by (simp_all add: cs2_def scens_ids_def scens_dic_def)
  from sweep_loop_ids [OF loop] assms(2,3)
  have ids: "scens_ids cs'
      = scens_ids cs @ map (\<lambda>j. ''sc'' @ string_of_nat (length (scens cs) + j)) [0..<N]"
    by (simp add: same length_make_scen_df)
  have "inj_on (\<lambda>j. ''sc'' @ string_of_nat (length (scens cs) + j)) (set [0..<N])"
    by (rule inj_onI) (auto dest: string_of_nat_inj)
  then have "distinct (map (\<lambda>j. ''sc'' @ string_of_nat (length (scens cs) + j)) [0..<N])"
    by (simp add: distinct_map)
  with ids show ?thesis by simp
qed

lemma add_scens_registers_example:
  "\<exists>cs'. add_scens ex_str
            (Some [(''c_GRID_T'', ''t'', [Str ''c_GRID_RTP_T'', Num 2]),
                   (''P_PV_CAPx_'', ''p'', [Num 0, Num 5])])
            0 False ''REF'' ex_cs = Inr cs'
         \<and> scens_ids cs' = [''REF'', ''sc1'', ''sc2'', ''sc3'', ''sc4'']"
proof -
  have "\<not> isl (add_scens ex_str
            (Some [(''c_GRID_T'', ''t'', [Str ''c_GRID_RTP_T'', Num 2]),
                   (''P_PV_CAPx_'', ''p'', [Num 0, Num 5])])
            0 False ''REF'' ex_cs)"
    by code_simp
  then obtain cs' where run: "add_scens ex_str
            (Some [(''c_GRID_T'', ''t'', [Str ''c_GRID_RTP_T'', Num 2]),
                   (''P_PV_CAPx_'', ''p'', [Num 0, Num 5])])
            0 False ''REF'' ex_cs = Inr cs'"
    by (cases "add_scens ex_str
            (Some [(''c_GRID_T'', ''t'', [Str ''c_GRID_RTP_T'', Num 2]),
                   (''P_PV_CAPx_'', ''p'', [Num 0, Num 5])])
            0 False ''REF'' ex_cs") auto
  have ids: "scens_ids ex_cs = [''REF'']" by (simp add: scens_ids_def scens_dic_def scens_ex_cs)
  have fresh: "\<forall>j < 4. ''sc'' @ string_of_nat (length (scens ex_cs) + j) \<notin> set (scens_ids ex_cs)"
    by (simp add: ids)
  from add_scens_registers [OF run _ fresh]
  have "scens_ids cs' = scens_ids ex_cs
          @ map (\<lambda>j. ''sc'' @ string_of_nat (length (scens ex_cs) + j)) [0..<4]"
    by (simp add: value_lists_def)
  also have "\<dots> = [''REF'', ''sc1'', ''sc2'', ''sc3'', ''sc4'']"
  proof -
    have "map (\<lambda>j. ''sc'' @ string_of_nat (Suc 0 + j)) [0..<4] = [''sc1'', ''sc2'', ''sc3'', ''sc4'']"
      by code_simp
    then show ?thesis by (simp add: ids scens_ex_cs)
  qed
  finally show ?thesis using run by blast
qed

lemma scens_ids_ex_swept: "scens_ids ex_swept = [''sc1'']"
  unfolding ex_swept_def by code_simp

lemma reachable_ex_swept: "reachable ex_swept"
proof (cases "add_scens ex_str (Some [(''c_GRID_T'', ''t'', [Num 5])]) 0 True ''REF'' ex_cs")
  case (Inl err)
  obtain e cs' where "err = (e, cs')" by (cases err)
  with Inl reach_add_scens_raise [OF reachable_ex_cs] show ?thesis
    by (simp add: ex_swept_def state_after_def)
next
  case (Inr cs')
  with reach_add_scens [OF reachable_ex_cs] show ?thesis
    by (simp add: ex_swept_def state_after_def)
qed

text \<open>
  Claim C1 fails on the code where the ids collide. A sweep over one axis with one value
  on the reference scenario that deletes its base leaves the registry \<open>ex_swept\<close>, with
  the single id \<open>sc1\<close>. A second sweep, over one axis with two values and based on
  \<open>sc1\<close>, returns; both of its scenarios were stored under \<open>sc1\<close>, the size of the
  registry being 1 each time, so the registry still holds the single id \<open>sc1\<close>, now the
  second scenario of the sweep: no scenario was registered under a new id.
\<close>

theorem add_scens_id_collision:
  "reachable ex_swept
   \<and> scens_ids ex_swept = [''sc1'']
   \<and> prod_list (map length (value_lists [(''c_GRID_T'', ''t'', [Num 1, Num 2])])) = 2
   \<and> \<not> isl (add_scens ex_str (Some [(''c_GRID_T'', ''t'', [Num 1, Num 2])]) 0 False ''sc1'' ex_swept)
   \<and> scens_ids (state_after
        (add_scens ex_str (Some [(''c_GRID_T'', ''t'', [Num 1, Num 2])]) 0 False ''sc1'' ex_swept))
      = [''sc1'']
   \<and> map scen_name (scens_list (state_after
        (add_scens ex_str (Some [(''c_GRID_T'', ''t'', [Num 1, Num 2])]) 0 False ''sc1'' ex_swept)))
      = [''t2'']"
proof -
  have "prod_list (map length (value_lists [(''c_GRID_T'', ''t'', [Num 1, Num 2])])) = 2"
    by (simp add: value_lists_def)
  moreover have "\<not> isl (add_scens ex_str (Some [(''c_GRID_T'', ''t'', [Num 1, Num 2])]) 0 False ''sc1'' ex_swept)"
    unfolding ex_swept_def by code_simp
  moreover have "scens_ids (state_after
        (add_scens ex_str (Some [(''c_GRID_T'', ''t'', [Num 1, Num 2])]) 0 False ''sc1'' ex_swept))
      = [''sc1'']"
    unfolding ex_swept_def by code_simp
  moreover have "map scen_name (scens_list (state_after
        (add_scens ex_str (Some [(''c_GRID_T'', ''t'', [Num 1, Num 2])]) 0 False ''sc1'' ex_swept)))
      = [''t2'']"
    unfolding ex_swept_def by code_simp
  ultimately show ?thesis using reachable_ex_swept scens_ids_ex_swept by blast
qed

end
